theory Spec2Isabelle
  imports Complex_Main "HOL-Library.Product_Lexorder" "HOL-Library.Multiset" "HOL-Library.AList"
begin

section \<open>Values\<close>

text \<open>
  A decoded JSON value, as \<^verbatim>\<open>json.loads\<close> returns it. Numbers (Python \<^verbatim>\<open>int\<close> and
  \<^verbatim>\<open>float\<close>) are exact rationals: float64 rounding, and the literals \<^verbatim>\<open>NaN\<close> and
  \<^verbatim>\<open>Infinity\<close> that Python's decoder also accepts, are outside the model. An object is
  the list of its items, with distinct keys.
\<close>

datatype json =
    JNull
  | JBool bool
  | JNum rat
  | JStr string
  | JArr "json list"
  | JObj "(string \<times> json) list"

text \<open>
  A Python float as the analysis produces it: a finite number, \<^verbatim>\<open>float('inf')\<close>, or the
  \<^verbatim>\<open>nan\<close> that \<^verbatim>\<open>np.median\<close> returns for an empty sequence.
\<close>

datatype pyfloat = Fin rat | PInf | NaN

text \<open>
  The order used for sorting. On finite numbers and infinity it is Python's. Python orders
  nothing against \<^verbatim>\<open>nan\<close>; here \<open>NaN\<close> is put last, and every statement about the
  ranking is made for score lists free of \<open>NaN\<close>.
\<close>

instantiation pyfloat :: linorder
begin

fun less_eq_pyfloat :: "pyfloat \<Rightarrow> pyfloat \<Rightarrow> bool" where
  "less_eq_pyfloat (Fin a) (Fin b) = (a \<le> b)"
| "less_eq_pyfloat (Fin a) PInf = True"
| "less_eq_pyfloat (Fin a) NaN = True"
| "less_eq_pyfloat PInf (Fin b) = False"
| "less_eq_pyfloat PInf PInf = True"
| "less_eq_pyfloat PInf NaN = True"
| "less_eq_pyfloat NaN (Fin b) = False"
| "less_eq_pyfloat NaN PInf = False"
| "less_eq_pyfloat NaN NaN = True"

definition less_pyfloat :: "pyfloat \<Rightarrow> pyfloat \<Rightarrow> bool" where
  "less_pyfloat a b = (a \<le> b \<and> \<not> b \<le> a)"

instance
proof
  fix x y z :: pyfloat
  show "(x < y) = (x \<le> y \<and> \<not> y \<le> x)"
    by (simp add: less_pyfloat_def)
  show "x \<le> x"
    by (cases x) auto
  show "x \<le> y \<Longrightarrow> y \<le> z \<Longrightarrow> x \<le> z"
    by (cases x; cases y; cases z) auto
  show "x \<le> y \<Longrightarrow> y \<le> x \<Longrightarrow> x = y"
    by (cases x; cases y) auto
  show "x \<le> y \<or> y \<le> x"
    by (cases x; cases y) auto
qed

end

section \<open>analyze.py: the data model\<close>

text \<open>
  \<^verbatim>\<open>ConfigMetrics\<close>. The type parameter is the type of a sample: the loader appends
  whatever JSON value a record holds (\<open>json ConfigMetrics\<close>); the analysis hands the
  sequences to numpy and is modelled where they hold numbers (\<open>rat ConfigMetrics\<close>).
  The counters only ever hold the result of \<^verbatim>\<open>max\<close> on numbers.
\<close>

record 'v ConfigMetrics =
  region :: json
  instance_family :: json
  p50_samples :: "'v list"
  p99_samples :: "'v list"
  p999_samples :: "'v list"
  cv_samples :: "'v list"
  reconnects :: rat
  errors :: rat
  message_count :: rat

definition key :: "'v ConfigMetrics \<Rightarrow> json \<times> json" where
  "key m = (region m, instance_family m)"

section \<open>analyze.py: constraints and score\<close>

text \<open>
  \<^verbatim>\<open>np.median\<close> of a non-empty sequence: the middle element of the sorted sequence, or
  the mean of the two middle elements. Every use of \<open>median_of\<close> below stands behind the
  same emptiness test as in the source; \<open>np_median\<close> is the unguarded call.
\<close>

definition median_of :: "rat list \<Rightarrow> rat" where
  "median_of xs =
    (let s = sort xs; n = length xs
     in if odd n then s ! (n div 2) else (s ! (n div 2 - 1) + s ! (n div 2)) / 2)"

definition np_median :: "rat list \<Rightarrow> pyfloat" where
  "np_median xs = (if xs = [] then NaN else Fin (median_of xs))"

text \<open>
  The violation messages of \<^verbatim>\<open>check_hard_constraints\<close>, each with the number its text
  is formatted from: \<^verbatim>\<open>"no data collected"\<close>, \<^verbatim>\<open>"p99 ..ms > 50ms limit"\<close>,
  \<^verbatim>\<open>"Reconnects .. > 1/hour limit"\<close>, \<^verbatim>\<open>"p999/p99 ratio .. > 3.0 limit"\<close>.
\<close>

datatype violation =
    NoDataCollected
  | P99OverLimit rat
  | ReconnectsOverLimit rat
  | RatioOverLimit rat

definition check_hard_constraints :: "rat ConfigMetrics \<Rightarrow> bool \<times> violation list" where
  "check_hard_constraints m =
    (if p99_samples m = [] then (False, [NoDataCollected])
     else
       let p99 = median_of (p99_samples m);
           p999 = (if p999_samples m \<noteq> [] then median_of (p999_samples m) else 0);
           violations = [];
           violations = (if p99 > 50000 then violations @ [P99OverLimit p99] else violations);
           violations = (if reconnects m > 1
                         then violations @ [ReconnectsOverLimit (reconnects m)]
                         else violations);
           violations = (if p99 > 0 \<and> p999 > 0
                         then (let ratio = p999 / p99
                               in if ratio > 3 then violations @ [RatioOverLimit ratio]
                                  else violations)
                         else violations)
       in (length violations = 0, violations))"

text \<open>
  The details bag of \<^verbatim>\<open>compute_score\<close>: the error dictionary, or the figures. Of the
  figures the model keeps the truncated median, the counters and the sample count; the
  rounded and percentile figures are printed and exported only.
\<close>

datatype details =
    ErrorDetails string
  | Figures int rat rat rat nat

definition py_int :: "rat \<Rightarrow> int" where
  "py_int x = (if 0 \<le> x then \<lfloor>x\<rfloor> else \<lceil>x\<rceil>)"

definition all_p99 :: "rat ConfigMetrics list \<Rightarrow> rat list" where
  "all_p99 all_metrics = [median_of (p99_samples x). x \<leftarrow> all_metrics, p99_samples x \<noteq> []]"

definition all_cv :: "rat ConfigMetrics list \<Rightarrow> rat list" where
  "all_cv all_metrics = [median_of (cv_samples x). x \<leftarrow> all_metrics, cv_samples x \<noteq> []]"

text \<open>
  The two normalised values of \<^verbatim>\<open>compute_score\<close>, which computes them once both
  \<open>all_p99\<close> and \<open>all_cv\<close> are non-empty. Python's \<^verbatim>\<open>cv / max_cv\<close> keeps a \<^verbatim>\<open>nan\<close>.
\<close>

definition norm_p99 :: "rat ConfigMetrics \<Rightarrow> rat ConfigMetrics list \<Rightarrow> rat" where
  "norm_p99 m all_metrics =
    (let min_p99 = Min (set (all_p99 all_metrics));
         max_p99 = Max (set (all_p99 all_metrics));
         p99 = median_of (p99_samples m)
     in if max_p99 > min_p99 then (p99 - min_p99) / (max_p99 - min_p99) else 0)"

definition norm_cv :: "rat ConfigMetrics \<Rightarrow> rat ConfigMetrics list \<Rightarrow> pyfloat" where
  "norm_cv m all_metrics =
    (let max_cv = Max (set (all_cv all_metrics));
         cv = np_median (cv_samples m)
     in if max_cv > 0
        then (case cv of Fin c \<Rightarrow> Fin (c / max_cv) | PInf \<Rightarrow> PInf | NaN \<Rightarrow> NaN)
        else Fin 0)"

definition weighted :: "rat \<Rightarrow> pyfloat \<Rightarrow> pyfloat" where
  "weighted np ncv =
    (case ncv of Fin nc \<Rightarrow> Fin (7 / 10 * np + 3 / 10 * nc) | PInf \<Rightarrow> PInf | NaN \<Rightarrow> NaN)"

definition compute_score :: "rat ConfigMetrics \<Rightarrow> rat ConfigMetrics list \<Rightarrow> pyfloat \<times> details" where
  "compute_score m all_metrics =
    (if p99_samples m = [] then (PInf, ErrorDetails ''no samples'')
     else if all_p99 all_metrics = [] \<or> all_cv all_metrics = []
     then (PInf, ErrorDetails ''insufficient data'')
     else (weighted (norm_p99 m all_metrics) (norm_cv m all_metrics),
           Figures (py_int (median_of (p99_samples m)))
             (reconnects m) (errors m) (message_count m) (length (p99_samples m))))"

section \<open>analyze.py: ranking and recommendation\<close>

text \<open>
  One entry of the list \<^verbatim>\<open>scored\<close> that \<^verbatim>\<open>analyze\<close> builds: the dictionary with the keys
  \<^verbatim>\<open>region\<close>, \<^verbatim>\<open>instance_family\<close>, \<^verbatim>\<open>score\<close>, \<^verbatim>\<open>passes_constraints\<close>,
  \<^verbatim>\<open>violations\<close>, \<^verbatim>\<open>details\<close> and \<^verbatim>\<open>metrics\<close>.
\<close>

record ScoredConfig =
  sc_region :: json
  sc_instance_family :: json
  score :: pyfloat
  passes_constraints :: bool
  violations :: "violation list"
  sc_details :: details
  sc_metrics :: "rat ConfigMetrics"

definition score_config :: "rat ConfigMetrics \<Rightarrow> rat ConfigMetrics list \<Rightarrow> ScoredConfig" where
  "score_config m all_metrics =
    (let (passes, viols) = check_hard_constraints m;
         (sc, det) = compute_score m all_metrics
     in \<lparr> sc_region = region m, sc_instance_family = instance_family m, score = sc,
          passes_constraints = passes, violations = viols, sc_details = det, sc_metrics = m \<rparr>)"

definition scored_list :: "rat ConfigMetrics list \<Rightarrow> ScoredConfig list" where
  "scored_list all_metrics = map (\<lambda>m. score_config m all_metrics) all_metrics"

text \<open>
  The list \<^verbatim>\<open>scored\<close> after the scoring loop and
  \<^verbatim>\<open>scored.sort(key=lambda x: (not x["passes_constraints"], x["score"]))\<close>: Python's sort
  is stable and compares the key tuples lexicographically, \<^verbatim>\<open>False\<close> before \<^verbatim>\<open>True\<close>.
  This is the list that \<^verbatim>\<open>analyze\<close> hands to its output functions, which are modelled
  further down, with the exceptions they raise.
\<close>

definition rank_key :: "ScoredConfig \<Rightarrow> bool \<times> pyfloat" where
  "rank_key x = (\<not> passes_constraints x, score x)"

definition ranking :: "rat ConfigMetrics list \<Rightarrow> ScoredConfig list" where
  "ranking all_metrics = sort_key rank_key (scored_list all_metrics)"


text \<open>
  The loader's invariant on the four sample sequences (they grow together).
\<close>

definition samples_aligned :: "'v ConfigMetrics \<Rightarrow> bool" where
  "samples_aligned m =
    (length (p50_samples m) = length (p99_samples m)
     \<and> length (p999_samples m) = length (p99_samples m)
     \<and> length (cv_samples m) = length (p99_samples m))"

section \<open>analyze.py: statistical comparison\<close>

text \<open>
  The result dictionary of \<^verbatim>\<open>statistical_comparison\<close>: \<^verbatim>\<open>{"error": ...}\<close>, or the
  p-value with its two significance flags, the median bootstrap difference and the
  95% interval. The function returns \<^verbatim>\<open>Optional[dict]\<close>.

  scipy's rank test and the seeded numpy resampling are library code: \<open>mannwhitneyu\<close>
  gives the p-value (\<open>None\<close> when scipy raises \<^verbatim>\<open>ValueError\<close>), \<open>bootstrap\<close> gives the
  truncated median of the 1000 differences and the truncated 2.5th and 97.5th
  percentiles.
\<close>

datatype comparison =
    ComparisonError string
  | Comparison rat bool bool int "int \<times> int"

definition statistical_comparison ::
  "(rat list \<Rightarrow> rat list \<Rightarrow> rat option) \<Rightarrow> (rat list \<Rightarrow> rat list \<Rightarrow> int \<times> int \<times> int) \<Rightarrow>
   rat ConfigMetrics \<Rightarrow> rat ConfigMetrics \<Rightarrow> comparison option" where
  "statistical_comparison mannwhitneyu bootstrap m1 m2 =
    (if p99_samples m1 = [] \<or> p99_samples m2 = [] then None
     else if length (p99_samples m1) < 5 \<or> length (p99_samples m2) < 5
     then Some (ComparisonError ''insufficient samples for statistical comparison'')
     else (case mannwhitneyu (p99_samples m1) (p99_samples m2) of
             None \<Rightarrow> Some (ComparisonError ''statistical test failed'')
           | Some p_value \<Rightarrow>
               (let (diff, ci_low, ci_high) = bootstrap (p99_samples m1) (p99_samples m2)
                in Some (Comparison p_value (p_value < 5 / 100) (p_value < 1 / 100)
                           diff (ci_low, ci_high)))))"

section \<open>analyze.py: the loader\<close>

text \<open>
  The exceptions of the Python operations that the loader applies to a decoded value and
  that the output functions apply to the scored list.
\<close>

datatype py_error = TypeError | KeyError | AttributeError | ValueError | ZeroDivisionError

text \<open>
  \<^verbatim>\<open>x[k]\<close> with a string \<open>k\<close>: only a dictionary can be subscripted with a string,
  and the key must be there.
\<close>

fun getitem :: "json \<Rightarrow> string \<Rightarrow> py_error + json" where
  "getitem (JObj kvs) k = (case map_of kvs k of None \<Rightarrow> Inl KeyError | Some v \<Rightarrow> Inr v)"
| "getitem _ k = Inl TypeError"

text \<open>\<^verbatim>\<open>x.get(k, default)\<close>: only a dictionary has the attribute \<^verbatim>\<open>get\<close>.\<close>

fun dict_get :: "json \<Rightarrow> string \<Rightarrow> json \<Rightarrow> py_error + json" where
  "dict_get (JObj kvs) k d = Inr (case map_of kvs k of None \<Rightarrow> d | Some v \<Rightarrow> v)"
| "dict_get _ k d = Inl AttributeError"

text \<open>
  A value that Python compares with a number: a number, or a boolean (\<^verbatim>\<open>True\<close> is 1).
\<close>

fun num_of :: "json \<Rightarrow> rat option" where
  "num_of (JNum r) = Some r"
| "num_of (JBool b) = Some (if b then 1 else 0)"
| "num_of _ = None"

text \<open>\<^verbatim>\<open>x > 0\<close> and \<^verbatim>\<open>max(a, x)\<close> for a number \<open>a\<close>.\<close>

definition gt_zero :: "json \<Rightarrow> py_error + bool" where
  "gt_zero x = (case num_of x of None \<Rightarrow> Inl TypeError | Some r \<Rightarrow> Inr (r > 0))"

definition py_max :: "rat \<Rightarrow> json \<Rightarrow> py_error + rat" where
  "py_max a x = (case num_of x of None \<Rightarrow> Inl TypeError | Some r \<Rightarrow> Inr (max a r))"

text \<open>
  Dictionary keys: a list or a dictionary cannot be hashed; \<^verbatim>\<open>True\<close> and \<^verbatim>\<open>1\<close> (and
  \<^verbatim>\<open>False\<close> and \<^verbatim>\<open>0\<close>) are the same key. The dictionary \<^verbatim>\<open>metrics\<close> is the list of
  its items in insertion order, under normalised keys.
\<close>

fun hashable :: "json \<Rightarrow> bool" where
  "hashable (JArr xs) = False"
| "hashable (JObj kvs) = False"
| "hashable _ = True"

fun key_norm :: "json \<Rightarrow> json" where
  "key_norm (JBool b) = JNum (if b then 1 else 0)"
| "key_norm x = x"

type_synonym metrics_dict = "((json \<times> json) \<times> json ConfigMetrics) list"

text \<open>
  \<^verbatim>\<open>key = (record["region"], record["instance_family"])\<close>, hashed by \<^verbatim>\<open>key not in metrics\<close>.
\<close>

definition record_key :: "json \<Rightarrow> py_error + (json \<times> json)" where
  "record_key record =
    (case getitem record ''region'' of
       Inl e \<Rightarrow> Inl e
     | Inr r \<Rightarrow>
        (case getitem record ''instance_family'' of
           Inl e \<Rightarrow> Inl e
         | Inr f \<Rightarrow> if hashable r \<and> hashable f then Inr (r, f) else Inl TypeError))"

definition dict_key :: "json \<times> json \<Rightarrow> json \<times> json" where
  "dict_key rf = (key_norm (fst rf), key_norm (snd rf))"

definition new_ConfigMetrics :: "json \<Rightarrow> json \<Rightarrow> json ConfigMetrics" where
  "new_ConfigMetrics r f =
    \<lparr> region = r, instance_family = f, p50_samples = [], p99_samples = [],
      p999_samples = [], cv_samples = [], reconnects = 0, errors = 0, message_count = 0 \<rparr>"

text \<open>The block under \<^verbatim>\<open>if agg.get("count", 0) > 0\<close>.\<close>

definition append_samples :: "json ConfigMetrics \<Rightarrow> json \<Rightarrow> py_error + json ConfigMetrics" where
  "append_samples m agg =
    (case dict_get agg ''count'' (JNum 0) of
       Inl e \<Rightarrow> Inl e
     | Inr c \<Rightarrow>
        (case gt_zero c of
           Inl e \<Rightarrow> Inl e
         | Inr False \<Rightarrow> Inr m
         | Inr True \<Rightarrow>
            (case (dict_get agg ''p50_us'' (JNum 0), dict_get agg ''p99_us'' (JNum 0),
                   dict_get agg ''p999_us'' (JNum 0), dict_get agg ''cv'' (JNum 0)) of
               (Inr v50, Inr v99, Inr v999, Inr vcv) \<Rightarrow>
                 Inr (m\<lparr> p50_samples := p50_samples m @ [v50],
                         p99_samples := p99_samples m @ [v99],
                         p999_samples := p999_samples m @ [v999],
                         cv_samples := cv_samples m @ [vcv] \<rparr>)
             | _ \<Rightarrow> Inl AttributeError)))"

text \<open>The three \<^verbatim>\<open>max\<close> assignments, in their order.\<close>

definition merge_counters :: "json ConfigMetrics \<Rightarrow> json \<Rightarrow> py_error + json ConfigMetrics" where
  "merge_counters m counters =
    (case dict_get counters ''reconnects'' (JNum 0) of
       Inl e \<Rightarrow> Inl e
     | Inr v1 \<Rightarrow>
        (case py_max (reconnects m) v1 of
           Inl e \<Rightarrow> Inl e
         | Inr r1 \<Rightarrow>
            (case dict_get counters ''errors'' (JNum 0) of
               Inl e \<Rightarrow> Inl e
             | Inr v2 \<Rightarrow>
                (case py_max (errors m) v2 of
                   Inl e \<Rightarrow> Inl e
                 | Inr r2 \<Rightarrow>
                    (case dict_get counters ''messages'' (JNum 0) of
                       Inl e \<Rightarrow> Inl e
                     | Inr v3 \<Rightarrow>
                        (case py_max (message_count m) v3 of
                           Inl e \<Rightarrow> Inl e
                         | Inr r3 \<Rightarrow>
                            Inr (m\<lparr> reconnects := r1, errors := r2, message_count := r3 \<rparr>)))))))"

text \<open>
  The configuration of the record's key, created on the first record of the key.
\<close>

definition entry_of :: "metrics_dict \<Rightarrow> json \<times> json \<Rightarrow> json \<Rightarrow> json \<Rightarrow> json ConfigMetrics" where
  "entry_of metrics k r f =
    (case map_of metrics k of None \<Rightarrow> new_ConfigMetrics r f | Some m \<Rightarrow> m)"

text \<open>
  The loop body of \<^verbatim>\<open>load_results\<close> for a decoded line. An exception leaves the
  function, so the dictionary it had changed by then is lost with it.
\<close>

definition ingest :: "metrics_dict \<Rightarrow> json \<Rightarrow> py_error + metrics_dict" where
  "ingest metrics record =
    (case record_key record of
       Inl e \<Rightarrow> Inl e
     | Inr (r, f) \<Rightarrow>
        (let k = dict_key (r, f);
             m = entry_of metrics k r f
         in case getitem record ''metrics'' of
              Inl e \<Rightarrow> Inl e
            | Inr mt \<Rightarrow>
               (case dict_get mt ''aggregate'' (JObj []) of
                  Inl e \<Rightarrow> Inl e
                | Inr agg \<Rightarrow>
                   (case append_samples m agg of
                      Inl e \<Rightarrow> Inl e
                    | Inr m1 \<Rightarrow>
                       (case dict_get mt ''counters'' (JObj []) of
                          Inl e \<Rightarrow> Inl e
                        | Inr counters \<Rightarrow>
                           (case merge_counters m1 counters of
                              Inl e \<Rightarrow> Inl e
                            | Inr m2 \<Rightarrow> Inr (AList.update k m2 metrics)))))))"

text \<open>
  \<^verbatim>\<open>load_results\<close> over the lines of the file, each given by what
  \<^verbatim>\<open>json.loads(line.strip())\<close> does with it: \<open>None\<close> when it raises
  \<^verbatim>\<open>JSONDecodeError\<close>, the decoded value otherwise. The result is the list of the line
  numbers warned about, and the dictionary or the exception that ended the load.
\<close>

fun load_loop ::
  "nat \<Rightarrow> json option list \<Rightarrow> nat list \<Rightarrow> metrics_dict \<Rightarrow> nat list \<times> (py_error + metrics_dict)" where
  "load_loop line_num [] warnings metrics = (warnings, Inr metrics)"
| "load_loop line_num (None # ls) warnings metrics =
     load_loop (Suc line_num) ls (warnings @ [line_num]) metrics"
| "load_loop line_num (Some record # ls) warnings metrics =
     (case ingest metrics record of
        Inl e \<Rightarrow> (warnings, Inl e)
      | Inr metrics' \<Rightarrow> load_loop (Suc line_num) ls warnings metrics')"

definition load_results :: "json option list \<Rightarrow> nat list \<times> (py_error + metrics_dict)" where
  "load_results ls = load_loop 1 ls [] []"

text \<open>
  \<^verbatim>\<open>all_metrics = list(metrics.values())\<close> in \<^verbatim>\<open>analyze\<close>: the loaded configurations in
  insertion order, where the load succeeds and every sample is a number, as numpy needs it.
\<close>

definition as_numbers :: "json ConfigMetrics \<Rightarrow> rat ConfigMetrics option" where
  "as_numbers m =
    (case (those (map num_of (p50_samples m)), those (map num_of (p99_samples m)),
           those (map num_of (p999_samples m)), those (map num_of (cv_samples m))) of
       (Some s50, Some s99, Some s999, Some scv) \<Rightarrow>
         Some \<lparr> region = region m, instance_family = instance_family m,
                p50_samples = s50, p99_samples = s99, p999_samples = s999, cv_samples = scv,
                reconnects = reconnects m, errors = errors m,
                message_count = message_count m \<rparr>
     | _ \<Rightarrow> None)"

definition all_metrics_of :: "json option list \<Rightarrow> rat ConfigMetrics list option" where
  "all_metrics_of ls =
    (case snd (load_results ls) of
       Inl e \<Rightarrow> None
     | Inr metrics \<Rightarrow> those (map (\<lambda>(k, m). as_numbers m) metrics))"

text \<open>
  What the claims about the loader speak of: the dictionary key of a record, the number
  a record reports for a counter, if it reports one, and the reports of all records of
  one key.
\<close>

definition key_of :: "json \<Rightarrow> (json \<times> json) option" where
  "key_of record = (case record_key record of Inl e \<Rightarrow> None | Inr rf \<Rightarrow> Some (dict_key rf))"

definition reported_counter :: "json \<Rightarrow> string \<Rightarrow> rat option" where
  "reported_counter record name =
    (case getitem record ''metrics'' of
       Inr (JObj mt) \<Rightarrow>
         (case map_of mt ''counters'' of
            Some (JObj cs) \<Rightarrow> (case map_of cs name of Some v \<Rightarrow> num_of v | None \<Rightarrow> None)
          | _ \<Rightarrow> None)
     | _ \<Rightarrow> None)"

fun reports :: "string \<Rightarrow> json \<times> json \<Rightarrow> json option list \<Rightarrow> rat list" where
  "reports name k [] = []"
| "reports name k (None # ls) = reports name k ls"
| "reports name k (Some record # ls) =
     (if key_of record = Some k
      then (case reported_counter record name of None \<Rightarrow> [] | Some v \<Rightarrow> [v])
      else []) @ reports name k ls"

text \<open>
  The invariant of the loading loop for the counters, after the lines \<open>pre\<close>.
\<close>

definition counters_inv :: "json option list \<Rightarrow> metrics_dict \<Rightarrow> bool" where
  "counters_inv pre metrics =
    (\<forall>k. (map_of metrics k = None \<longrightarrow> (\<forall>name. reports name k pre = []))
        \<and> (\<forall>m. map_of metrics k = Some m \<longrightarrow>
              reconnects m = Max (set (0 # reports ''reconnects'' k pre))
              \<and> errors m = Max (set (0 # reports ''errors'' k pre))
              \<and> message_count m = Max (set (0 # reports ''messages'' k pre))))"

text \<open>Example records, as the collection loop writes them.\<close>

definition example_record :: "string \<Rightarrow> (string \<times> json) list \<Rightarrow> (string \<times> json) list \<Rightarrow> json" where
  "example_record name agg counters =
    JObj [(''timestamp'', JStr ''2026-01-01T00:00:00''), (''elapsed_sec'', JNum 0),
          (''region'', JStr name), (''instance_family'', JStr ''c6i.large''),
          (''instance_id'', JStr ''i-0''),
          (''metrics'', JObj [(''aggregate'', JObj agg), (''counters'', JObj counters)])]"

text \<open>
  A full record; a record of the same key whose aggregate has a positive \<^verbatim>\<open>count\<close>
  and none of the four sample fields, and which reports lower counters; a record of a probe that has measured nothing yet
  (\<^verbatim>\<open>count\<close> is 0) and reports higher counters; and a record whose reconnect counter is
  negative.
\<close>

definition record_full :: json where
  "record_full =
    example_record ''eu-west-1''
      [(''count'', JNum 5), (''p50_us'', JNum 100), (''p99_us'', JNum 900),
       (''p999_us'', JNum 1500), (''cv'', JNum (1 / 10))]
      [(''reconnects'', JNum 1), (''errors'', JNum 0), (''messages'', JNum 50)]"

definition agg_partial :: "(string \<times> json) list" where
  "agg_partial = [(''count'', JNum 7)]"

definition counters_partial :: "(string \<times> json) list" where
  "counters_partial = [(''reconnects'', JNum 0), (''messages'', JNum 90)]"

definition record_partial :: json where
  "record_partial = example_record ''eu-west-1'' agg_partial counters_partial"

definition record_idle :: json where
  "record_idle =
    example_record ''eu-west-1''
      [(''count'', JNum 0)]
      [(''reconnects'', JNum 3), (''errors'', JNum 2), (''messages'', JNum 10)]"

definition record_negative :: json where
  "record_negative = example_record ''eu-west-1'' [] [(''reconnects'', JNum (- 1))]"

definition key_eu_west :: "json \<times> json" where
  "key_eu_west = (JStr ''eu-west-1'', JStr ''c6i.large'')"

text \<open>
  What the loader builds from the full record alone, from the full and the partial
  record, from the idle and the full record, and from the negative record alone.
\<close>

definition loaded_first :: "json ConfigMetrics" where
  "loaded_first =
    \<lparr> region = JStr ''eu-west-1'', instance_family = JStr ''c6i.large'',
      p50_samples = [JNum 100], p99_samples = [JNum 900],
      p999_samples = [JNum 1500], cv_samples = [JNum (1 / 10)],
      reconnects = 1, errors = 0, message_count = 50 \<rparr>"

definition loaded_eu_west :: "json ConfigMetrics" where
  "loaded_eu_west =
    \<lparr> region = JStr ''eu-west-1'', instance_family = JStr ''c6i.large'',
      p50_samples = [JNum 100, JNum 0], p99_samples = [JNum 900, JNum 0],
      p999_samples = [JNum 1500, JNum 0], cv_samples = [JNum (1 / 10), JNum 0],
      reconnects = 1, errors = 0, message_count = 90 \<rparr>"

definition loaded_idle_full :: "json ConfigMetrics" where
  "loaded_idle_full =
    \<lparr> region = JStr ''eu-west-1'', instance_family = JStr ''c6i.large'',
      p50_samples = [JNum 100], p99_samples = [JNum 900],
      p999_samples = [JNum 1500], cv_samples = [JNum (1 / 10)],
      reconnects = 3, errors = 2, message_count = 50 \<rparr>"

definition loaded_negative :: "json ConfigMetrics" where
  "loaded_negative = new_ConfigMetrics (JStr ''eu-west-1'') (JStr ''c6i.large'')"

section \<open>analyze.py: the output and the main function\<close>

text \<open>
  \<^verbatim>\<open>d['p99_median_us']\<close>, the first key that each output function reads from a details
  bag. The error dictionary of \<^verbatim>\<open>compute_score\<close> does not have it; the figures have it
  and every key that is read after it.
\<close>

fun p99_median_us :: "details \<Rightarrow> py_error + int" where
  "p99_median_us (ErrorDetails msg) = Inl KeyError"
| "p99_median_us (Figures p99 rc er mc n) = Inr p99"

text \<open>
  \<^verbatim>\<open>print_ranking\<close>: the exception that ends it, if any. For each entry in turn it prints
  the position, the verdict, the region, the instance family and the score, and then reads
  the figures from the details. The printed text itself is not modelled.
\<close>

fun print_ranking :: "ScoredConfig list \<Rightarrow> py_error option" where
  "print_ranking [] = None"
| "print_ranking (s # scored) =
    (case p99_median_us (sc_details s) of
       Inl e \<Rightarrow> Some e
     | Inr p99 \<Rightarrow> print_ranking scored)"

text \<open>
  \<^verbatim>\<open>print_comparison\<close>: with fewer than two passing entries it returns at once; a
  comparison that is \<^verbatim>\<open>None\<close> reaches \<^verbatim>\<open>comparison.get\<close>, which \<^verbatim>\<open>None\<close> does not
  have; an error dictionary and a full result are printed.
\<close>

definition print_comparison ::
  "(rat list \<Rightarrow> rat list \<Rightarrow> rat option) \<Rightarrow> (rat list \<Rightarrow> rat list \<Rightarrow> int \<times> int \<times> int) \<Rightarrow>
   ScoredConfig list \<Rightarrow> py_error option" where
  "print_comparison mannwhitneyu bootstrap scored =
    (let passing = filter passes_constraints scored
     in if length passing < 2 then None
        else (case statistical_comparison mannwhitneyu bootstrap
                     (sc_metrics (passing ! 0)) (sc_metrics (passing ! 1)) of
                None \<Rightarrow> Some AttributeError
              | Some comparison \<Rightarrow> None))"

text \<open>
  \<^verbatim>\<open>print_recommendation\<close>: the exception raised, or the entry printed as
  \<^verbatim>\<open>RECOMMENDED\<close>, \<open>None\<close> standing for the warning that no configuration passes all
  hard constraints. With a runner-up it computes
  \<^verbatim>\<open>(rd["p99_median_us"] - d["p99_median_us"]) / rd["p99_median_us"] * 100\<close> on Python
  integers.
\<close>

definition print_recommendation :: "ScoredConfig list \<Rightarrow> py_error + ScoredConfig option" where
  "print_recommendation scored =
    (let passing = filter passes_constraints scored
     in if passing = [] then Inr None
        else (let winner = passing ! 0
              in case p99_median_us (sc_details winner) of
                   Inl e \<Rightarrow> Inl e
                 | Inr p99 \<Rightarrow>
                    if length passing > 1
                    then (let runner_up = passing ! 1
                          in case p99_median_us (sc_details runner_up) of
                               Inl e \<Rightarrow> Inl e
                             | Inr rp99 \<Rightarrow>
                                 if rp99 = 0 then Inl ZeroDivisionError else Inr (Some winner))
                    else Inr (Some winner)))"

text \<open>
  \<^verbatim>\<open>export_json\<close>: the dictionary \<^verbatim>\<open>export_data\<close> that is written. An exported ranking
  entry is the scored entry, under its position, without its \<^verbatim>\<open>metrics\<close>. The
  recommendation holds the winner's region, instance family and
  \<^verbatim>\<open>details["p99_median_us"] / 1000\<close>; its \<^verbatim>\<open>cv\<close>, a rounded figure, and the timestamp
  are left out.
\<close>

record Recommendation =
  rec_region :: json
  rec_instance_family :: json
  p99_ms :: rat

record ExportData =
  rankings :: "(nat \<times> ScoredConfig) list"
  exp_recommendation :: "Recommendation option"

definition export_json :: "ScoredConfig list \<Rightarrow> py_error + ExportData" where
  "export_json scored =
    (let ranked = zip [1..<Suc (length scored)] scored;
         passing = filter passes_constraints scored
     in if passing \<noteq> []
        then (case p99_median_us (sc_details (passing ! 0)) of
                Inl e \<Rightarrow> Inl e
              | Inr p99 \<Rightarrow>
                  Inr \<lparr> rankings = ranked,
                        exp_recommendation =
                          Some \<lparr> rec_region = sc_region (passing ! 0),
                                 rec_instance_family = sc_instance_family (passing ! 0),
                                 p99_ms = of_int p99 / 1000 \<rparr> \<rparr>)
        else Inr \<lparr> rankings = ranked, exp_recommendation = None \<rparr>)"

text \<open>
  How a run of \<^verbatim>\<open>analyze\<close> ends: with an exception, with \<^verbatim>\<open>sys.exit\<close>, or by
  returning, having printed the ranking and the recommendation and, when asked to,
  written the export.
\<close>

record Report =
  printed_ranking :: "ScoredConfig list"
  printed_recommendation :: "ScoredConfig option"
  exported :: "ExportData option"

datatype analysis = Raised py_error | SystemExit int | Finished Report

text \<open>
  \<^verbatim>\<open>analyze\<close> from the line after \<^verbatim>\<open>metrics = load_results(results_file)\<close> on, for
  \<^verbatim>\<open>all_metrics = list(metrics.values())\<close>; \<open>json_output\<close> is the optional path.
  An exception of \<^verbatim>\<open>load_results\<close> ends \<^verbatim>\<open>analyze\<close> before this point, and
  \<open>all_metrics_of\<close> says when a log gets here and with what.
\<close>

definition analyze ::
  "(rat list \<Rightarrow> rat list \<Rightarrow> rat option) \<Rightarrow> (rat list \<Rightarrow> rat list \<Rightarrow> int \<times> int \<times> int) \<Rightarrow>
   rat ConfigMetrics list \<Rightarrow> string option \<Rightarrow> analysis" where
  "analyze mannwhitneyu bootstrap all_metrics json_output =
    (if all_metrics = [] then SystemExit 1
     else
       (let scored = ranking all_metrics
        in case print_ranking scored of
             Some e \<Rightarrow> Raised e
           | None \<Rightarrow>
              (case print_comparison mannwhitneyu bootstrap scored of
                 Some e \<Rightarrow> Raised e
               | None \<Rightarrow>
                  (case print_recommendation scored of
                     Inl e \<Rightarrow> Raised e
                   | Inr winner \<Rightarrow>
                      (case json_output of
                         None \<Rightarrow>
                           Finished \<lparr> printed_ranking = scored, printed_recommendation = winner,
                                      exported = None \<rparr>
                       | Some output_file \<Rightarrow>
                          (case export_json scored of
                             Inl e \<Rightarrow> Raised e
                           | Inr export_data \<Rightarrow>
                               Finished \<lparr> printed_ranking = scored,
                                          printed_recommendation = winner,
                                          exported = Some export_data \<rparr>))))))"

section \<open>run_sweep.py: the data model\<close>

text \<open>
  \<^verbatim>\<open>ProbeConfig\<close> and \<^verbatim>\<open>SweepConfig\<close>. The fields \<^verbatim>\<open>region\<close> and
  \<^verbatim>\<open>instance_family\<close> of a probe carry a prefix here, the plain names being those of
  \<^verbatim>\<open>ConfigMetrics\<close>. The two URL properties of a probe are what \<^verbatim>\<open>requests.get\<close>
  is called with; the model gives the answers per probe instead.
\<close>

record ProbeConfig =
  probe_region :: string
  probe_instance_family :: string
  instance_ip :: string
  instance_id :: string
  metrics_port :: int

record SweepConfig =
  experiment_id :: string
  warmup_sec :: int
  measurement_sec :: int
  poll_interval_sec :: int
  output_dir :: string

text \<open>
  What a call of \<^verbatim>\<open>requests.get\<close> does: it raises a \<^verbatim>\<open>RequestException\<close> (timeout,
  refused connection, failed name resolution), or returns a response with a status code
  and a body, which \<^verbatim>\<open>resp.json()\<close> decodes or not.
\<close>

datatype http_result = RequestException | Response nat "json option"

section \<open>run_sweep.py: the health gate\<close>

text \<open>
  The body of the \<^verbatim>\<open>for\<close> loop of \<^verbatim>\<open>wait_for_probes\<close> for one probe, and the flag
  \<^verbatim>\<open>all_healthy\<close> after the loop over all probes.
\<close>

definition probe_healthy :: "http_result \<Rightarrow> bool" where
  "probe_healthy r = (case r of RequestException \<Rightarrow> False | Response status_code body \<Rightarrow> status_code = 200)"

definition sweep_healthy :: "http_result list \<Rightarrow> bool" where
  "sweep_healthy rs = fold (\<lambda>r all_healthy. if probe_healthy r then all_healthy else False) rs True"

text \<open>
  The \<^verbatim>\<open>while\<close> loop. Time is in seconds; \<open>elapsed\<close> is \<^verbatim>\<open>time.time() - start\<close> at the
  loop test. The environment gives, for the sweep number \<open>n\<close>, the answer \<open>health n p\<close>
  of each probe and the milliseconds \<open>took n\<close> that the requests of the sweep take;
  \<^verbatim>\<open>time.sleep(10)\<close> adds ten seconds. Each pass moves the clock by at least ten
  seconds, so the loop ends.
\<close>

function wait_loop ::
  "(nat \<Rightarrow> ProbeConfig \<Rightarrow> http_result) \<Rightarrow> (nat \<Rightarrow> nat) \<Rightarrow> ProbeConfig list \<Rightarrow> int \<Rightarrow> rat \<Rightarrow> nat \<Rightarrow> bool" where
  "wait_loop health took probes timeout_sec elapsed n =
    (if elapsed < of_int timeout_sec
     then (if sweep_healthy (map (health n) probes) then True
           else wait_loop health took probes timeout_sec
                  (elapsed + of_nat (took n) / 1000 + 10) (Suc n))
     else False)"
  by pat_completeness auto
termination
proof (relation "measure (\<lambda>(health, took, probes, timeout_sec, elapsed, n). nat \<lceil>of_int timeout_sec - elapsed\<rceil>)")
  show "wf (measure (\<lambda>(health, took, probes, timeout_sec, elapsed, n). nat \<lceil>of_int timeout_sec - elapsed\<rceil>))"
    by simp
next
  fix health :: "nat \<Rightarrow> ProbeConfig \<Rightarrow> http_result" and took :: "nat \<Rightarrow> nat"
    and probes :: "ProbeConfig list" and timeout_sec :: int and elapsed :: rat and n :: nat
  assume lt: "elapsed < of_int timeout_sec"
  have "of_int timeout_sec - (elapsed + of_nat (took n) / 1000 + 10) \<le> of_int timeout_sec - elapsed - 1"
    by simp
  then have "\<lceil>of_int timeout_sec - (elapsed + of_nat (took n) / 1000 + 10)\<rceil> \<le> \<lceil>of_int timeout_sec - elapsed - 1\<rceil>"
    by (rule ceiling_mono)
  also have "\<dots> = \<lceil>of_int timeout_sec - elapsed\<rceil> - 1" by simp
  finally have a: "\<lceil>of_int timeout_sec - (elapsed + of_nat (took n) / 1000 + 10)\<rceil> < \<lceil>of_int timeout_sec - elapsed\<rceil>"
    by simp
  have b: "0 < \<lceil>of_int timeout_sec - elapsed\<rceil>" using lt by simp
  show "((health, took, probes, timeout_sec, elapsed + of_nat (took n) / 1000 + 10, Suc n),
         (health, took, probes, timeout_sec, elapsed, n))
        \<in> measure (\<lambda>(health, took, probes, timeout_sec, elapsed, n). nat \<lceil>of_int timeout_sec - elapsed\<rceil>)"
    using a b by simp
qed

declare wait_loop.simps [simp del]

definition wait_for_probes ::
  "(nat \<Rightarrow> ProbeConfig \<Rightarrow> http_result) \<Rightarrow> (nat \<Rightarrow> nat) \<Rightarrow> ProbeConfig list \<Rightarrow> int \<Rightarrow> bool" where
  "wait_for_probes health took probes timeout_sec = wait_loop health took probes timeout_sec 0 0"

text \<open>The value of \<open>elapsed\<close> at which sweep \<open>n\<close> begins, should the loop get there.\<close>

fun sweep_start :: "(nat \<Rightarrow> nat) \<Rightarrow> nat \<Rightarrow> rat" where
  "sweep_start took 0 = 0"
| "sweep_start took (Suc n) = sweep_start took n + of_nat (took n) / 1000 + 10"

section \<open>run_sweep.py: the collection loop\<close>

text \<open>
  \<^verbatim>\<open>collect_metrics\<close>: \<^verbatim>\<open>raise_for_status\<close> raises for a status from 400 to 599, and a
  body that does not decode raises as well (in requests from version 2.27 on, a
  \<^verbatim>\<open>RequestException\<close>); every \<^verbatim>\<open>RequestException\<close> gives \<^verbatim>\<open>None\<close>.
\<close>

definition collect_metrics :: "http_result \<Rightarrow> json option" where
  "collect_metrics resp =
    (case resp of
       RequestException \<Rightarrow> None
     | Response status_code body \<Rightarrow>
         if 400 \<le> status_code \<and> status_code < 600 then None else body)"

text \<open>Python's truth value of a decoded JSON value, for \<^verbatim>\<open>if metrics:\<close>.\<close>

fun truthy :: "json \<Rightarrow> bool" where
  "truthy JNull = False"
| "truthy (JBool b) = b"
| "truthy (JNum r) = (r \<noteq> 0)"
| "truthy (JStr s) = (s \<noteq> [])"
| "truthy (JArr xs) = (xs \<noteq> [])"
| "truthy (JObj kvs) = (kvs \<noteq> [])"

text \<open>
  The summary line printed after a record is written: \<^verbatim>\<open>metrics.get\<close> and
  \<^verbatim>\<open>agg.get\<close> need dictionaries, \<^verbatim>\<open>p99/1000\<close> needs a number, and the format
  \<^verbatim>\<open>{cv:.4f}\<close> rejects a string with \<^verbatim>\<open>ValueError\<close> and any other non-number with
  \<^verbatim>\<open>TypeError\<close>. \<open>None\<close> means the line was printed.
\<close>

fun format_f :: "json \<Rightarrow> py_error option" where
  "format_f (JNum r) = None"
| "format_f (JBool b) = None"
| "format_f (JStr s) = Some ValueError"
| "format_f _ = Some TypeError"

definition print_summary :: "json \<Rightarrow> py_error option" where
  "print_summary metrics =
    (case dict_get metrics ''aggregate'' (JObj []) of
       Inl e \<Rightarrow> Some e
     | Inr agg \<Rightarrow>
        (case dict_get agg ''p99_us'' (JNum 0) of
           Inl e \<Rightarrow> Some e
         | Inr p99 \<Rightarrow>
            (case dict_get agg ''cv'' (JNum 0) of
               Inl e \<Rightarrow> Some e
             | Inr cv \<Rightarrow>
                (case num_of p99 of
                   None \<Rightarrow> Some TypeError
                 | Some x \<Rightarrow> format_f cv))))"

text \<open>
  A record of the log. Its \<^verbatim>\<open>timestamp\<close> is the wall-clock reading at the write, which
  the model does not follow within a round, and is left out.
\<close>

record LogRecord =
  elapsed_sec :: int
  lr_region :: string
  lr_instance_family :: string
  lr_instance_id :: string
  lr_metrics :: json

text \<open>
  One round over the probes: the exception that ended it, if any, the records written
  so far and \<^verbatim>\<open>collection_count\<close>.
\<close>

fun collect_round ::
  "(ProbeConfig \<Rightarrow> http_result) \<Rightarrow> int \<Rightarrow> ProbeConfig list \<Rightarrow> LogRecord list \<Rightarrow> nat \<Rightarrow>
   py_error option \<times> LogRecord list \<times> nat" where
  "collect_round fetch elapsed [] written collection_count = (None, written, collection_count)"
| "collect_round fetch elapsed (probe # probes) written collection_count =
    (case collect_metrics (fetch probe) of
       None \<Rightarrow> collect_round fetch elapsed probes written collection_count
     | Some metrics \<Rightarrow>
        if truthy metrics
        then (let rcd = \<lparr> elapsed_sec = elapsed, lr_region = probe_region probe,
                          lr_instance_family = probe_instance_family probe,
                          lr_instance_id = instance_id probe, lr_metrics = metrics \<rparr>;
                  written = written @ [rcd];
                  collection_count = collection_count + 1
              in case print_summary metrics of
                   Some e \<Rightarrow> (Some e, written, collection_count)
                 | None \<Rightarrow> collect_round fetch elapsed probes written collection_count)
        else collect_round fetch elapsed probes written collection_count)"

text \<open>
  What a run leaves behind besides its return value: the records appended to the log,
  the number of rounds begun, and the total that the closing banner prints.
\<close>

record CollectionEffects =
  appended :: "LogRecord list"
  rounds :: nat
  total_records :: "nat option"

text \<open>
  The \<^verbatim>\<open>while time.time() < end_time\<close> loop, with \<open>elapsed\<close> the time since
  \<^verbatim>\<open>start_time\<close>, so that the test is \<open>elapsed < measurement_sec\<close>. The loop may run for
  ever (a poll interval of 0 with requests that take no time), so the model counts
  rounds down from \<open>fuel\<close> and \<open>None\<close> means the fuel ran out.
  \<^verbatim>\<open>time.sleep\<close> raises \<^verbatim>\<open>ValueError\<close> for a negative interval.
\<close>

fun collection_loop ::
  "nat \<Rightarrow> (nat \<Rightarrow> ProbeConfig \<Rightarrow> http_result) \<Rightarrow> (nat \<Rightarrow> nat) \<Rightarrow> SweepConfig \<Rightarrow> ProbeConfig list \<Rightarrow>
   rat \<Rightarrow> nat \<Rightarrow> LogRecord list \<Rightarrow> nat \<Rightarrow> (py_error option \<times> LogRecord list \<times> nat \<times> nat) option" where
  "collection_loop 0 fetch took config probes elapsed n written collection_count = None"
| "collection_loop (Suc fuel) fetch took config probes elapsed n written collection_count =
    (if elapsed < of_int (measurement_sec config)
     then (case collect_round (fetch n) \<lfloor>elapsed\<rfloor> probes written collection_count of
             (Some e, written', count') \<Rightarrow> Some (Some e, written', count', Suc n)
           | (None, written', count') \<Rightarrow>
               if poll_interval_sec config < 0 then Some (Some ValueError, written', count', Suc n)
               else collection_loop fuel fetch took config probes
                      (elapsed + of_nat (took n) / 1000 + of_int (poll_interval_sec config))
                      (Suc n) written' count')
     else Some (None, written, collection_count, n))"

text \<open>\<^verbatim>\<open>config.output_dir / f"{config.experiment_id}_results.jsonl"\<close>, for a relative file name.\<close>

definition results_file :: "SweepConfig \<Rightarrow> string" where
  "results_file config = output_dir config @ ''/'' @ experiment_id config @ ''_results.jsonl''"

text \<open>
  \<^verbatim>\<open>run_collection\<close>: the effects, and the exception raised or the value returned, which
  is \<^verbatim>\<open>results_file\<close>. Creating the directory and opening the file are not modelled.
\<close>

definition run_collection ::
  "nat \<Rightarrow> (nat \<Rightarrow> ProbeConfig \<Rightarrow> http_result) \<Rightarrow> (nat \<Rightarrow> nat) \<Rightarrow> SweepConfig \<Rightarrow> ProbeConfig list \<Rightarrow>
   (CollectionEffects \<times> (py_error + string)) option" where
  "run_collection fuel fetch took config probes =
    (if warmup_sec config < 0
     then Some (\<lparr> appended = [], rounds = 0, total_records = None \<rparr>, Inl ValueError)
     else (case collection_loop fuel fetch took config probes 0 0 [] 0 of
             None \<Rightarrow> None
           | Some (e, written, collection_count, n) \<Rightarrow>
              (case e of
                 Some err \<Rightarrow>
                   Some (\<lparr> appended = written, rounds = n, total_records = None \<rparr>, Inl err)
               | None \<Rightarrow>
                   Some (\<lparr> appended = written, rounds = n, total_records = Some collection_count \<rparr>,
                         Inr (results_file config)))))"

text \<open>The value of \<open>elapsed\<close> at which round \<open>n\<close> begins, should the loop get there.\<close>

fun round_start :: "(nat \<Rightarrow> nat) \<Rightarrow> int \<Rightarrow> nat \<Rightarrow> rat" where
  "round_start took poll 0 = 0"
| "round_start took poll (Suc n) = round_start took poll n + of_nat (took n) / 1000 + of_int poll"

section \<open>Example probes and sweeps\<close>

definition probe_a :: ProbeConfig where
  "probe_a = \<lparr> probe_region = ''eu-west-1'', probe_instance_family = ''c6i.large'',
               instance_ip = ''10.0.0.1'', instance_id = ''i-0'', metrics_port = 9090 \<rparr>"

definition health_late :: "nat \<Rightarrow> ProbeConfig \<Rightarrow> http_result" where
  "health_late n p = (if n = 0 then RequestException else Response 200 None)"

definition health_204 :: "nat \<Rightarrow> ProbeConfig \<Rightarrow> http_result" where
  "health_204 n p = Response 204 None"

definition took_1s :: "nat \<Rightarrow> nat" where
  "took_1s n = 1000"

definition payload_ok :: json where
  "payload_ok =
    JObj [(''aggregate'', JObj [(''count'', JNum 5), (''p99_us'', JNum 900), (''cv'', JNum (1 / 10))]),
          (''counters'', JObj [(''reconnects'', JNum 0)])]"

definition fetch_ok :: "nat \<Rightarrow> ProbeConfig \<Rightarrow> http_result" where
  "fetch_ok n p = Response 200 (Some payload_ok)"

definition fetch_down :: "nat \<Rightarrow> ProbeConfig \<Rightarrow> http_result" where
  "fetch_down n p = RequestException"

definition sweep_short :: SweepConfig where
  "sweep_short = \<lparr> experiment_id = ''exp'', warmup_sec = 0, measurement_sec = 60,
                   poll_interval_sec = 60, output_dir = ''./results'' \<rparr>"

definition effects_one_record :: CollectionEffects where
  "effects_one_record =
    \<lparr> appended = [\<lparr> elapsed_sec = 0, lr_region = ''eu-west-1'', lr_instance_family = ''c6i.large'',
                     lr_instance_id = ''i-0'', lr_metrics = payload_ok \<rparr>],
      rounds = 1, total_records = Some 1 \<rparr>"

definition effects_no_record :: CollectionEffects where
  "effects_no_record = \<lparr> appended = [], rounds = 1, total_records = Some 0 \<rparr>"


section \<open>Example configurations\<close>

definition example_config ::
  "string \<Rightarrow> rat list \<Rightarrow> rat list \<Rightarrow> rat list \<Rightarrow> rat list \<Rightarrow> rat \<Rightarrow> rat ConfigMetrics" where
  "example_config name p50 p99 p999 cv rc =
    \<lparr> region = JStr name, instance_family = JStr ''c6i.large'',
      p50_samples = p50, p99_samples = p99, p999_samples = p999, cv_samples = cv,
      reconnects = rc, errors = 0, message_count = 1000 \<rparr>"

text \<open>
  An excellent latency with two reconnects, a slower clean one, one in between, and one
  without samples.
\<close>

definition cfg_fast_flaky :: "rat ConfigMetrics" where
  "cfg_fast_flaky = example_config ''eu-west-1'' [500] [1000] [1500] [1 / 100] 2"

definition cfg_slow_clean :: "rat ConfigMetrics" where
  "cfg_slow_clean = example_config ''eu-central-1'' [900] [2000] [2500] [1 / 50] 0"


definition cfg_no_samples :: "rat ConfigMetrics" where
  "cfg_no_samples = example_config ''eu-north-1'' [] [] [] [] 0"

text \<open>Log records from which the loader builds these four.\<close>

definition example_line :: "string \<Rightarrow> rat \<Rightarrow> rat \<Rightarrow> rat \<Rightarrow> rat \<Rightarrow> rat \<Rightarrow> rat \<Rightarrow> json option" where
  "example_line name cnt p50 p99 p999 cv rc =
    Some (example_record name
      [(''count'', JNum cnt), (''p50_us'', JNum p50), (''p99_us'', JNum p99),
       (''p999_us'', JNum p999), (''cv'', JNum cv)]
      [(''reconnects'', JNum rc), (''errors'', JNum 0), (''messages'', JNum 1000)])"

definition line_fast_flaky :: "json option" where
  "line_fast_flaky = example_line ''eu-west-1'' 40 500 1000 1500 (1 / 100) 2"

definition line_slow_clean :: "json option" where
  "line_slow_clean = example_line ''eu-central-1'' 40 900 2000 2500 (1 / 50) 0"


definition line_no_samples :: "json option" where
  "line_no_samples = example_line ''eu-north-1'' 0 0 0 0 0 0"



text \<open>A heavy tail: the ratio of the p999 median to the p99 median is 40000 / 11000.\<close>

definition cfg_heavy_tail :: "rat ConfigMetrics" where
  "cfg_heavy_tail =
    example_config ''eu-west-2'' [5000, 5000, 5000] [10000, 12000, 11000]
      [40000, 41000, 39000] [1 / 20, 3 / 50, 1 / 20] 0"

text \<open>
  Two configurations with the same p99, one of which reports a negative CV, and the log
  records they are loaded from.
\<close>

definition cfg_negative_cv :: "rat ConfigMetrics" where
  "cfg_negative_cv = example_config ''ap-south-1'' [5000] [10000] [15000] [- 1 / 10] 0"

definition cfg_positive_cv :: "rat ConfigMetrics" where
  "cfg_positive_cv = example_config ''ap-south-2'' [5000] [10000] [15000] [1 / 10] 0"

definition line_negative_cv :: "json option" where
  "line_negative_cv = example_line ''ap-south-1'' 40 5000 10000 15000 (- 1 / 10) 0"

definition line_positive_cv :: "json option" where
  "line_positive_cv = example_line ''ap-south-2'' 40 5000 10000 15000 (1 / 10) 0"

text \<open>Four p99 samples, one short of what the comparison asks for.\<close>

definition cfg_four_samples :: "rat ConfigMetrics" where
  "cfg_four_samples =
    example_config ''me-south-1'' [1, 1, 1, 1] [10, 20, 30, 40] [50, 50, 50, 50]
      [1 / 10, 1 / 10, 1 / 10, 1 / 10] 0"

text \<open>Stand-ins for the two library calls, for evaluating the comparison.\<close>

definition test_raises :: "rat list \<Rightarrow> rat list \<Rightarrow> rat option" where
  "test_raises a b = None"

definition bootstrap_zero :: "rat list \<Rightarrow> rat list \<Rightarrow> int \<times> int \<times> int" where
  "bootstrap_zero a b = (0, 0, 0)"

section \<open>Constraints\<close>

lemma check_hard_constraints_nonempty:
  "p99_samples m \<noteq> [] \<Longrightarrow>
   check_hard_constraints m =
     (let p99 = median_of (p99_samples m);
          p999 = (if p999_samples m \<noteq> [] then median_of (p999_samples m) else 0);
          v1 = (if p99 > 50000 then [P99OverLimit p99] else []);
          v2 = (if reconnects m > 1 then [ReconnectsOverLimit (reconnects m)] else []);
          v3 = (if p99 > 0 \<and> p999 > 0 \<and> p999 / p99 > 3 then [RatioOverLimit (p999 / p99)] else [])
      in (v1 @ v2 @ v3 = [], v1 @ v2 @ v3))"
  by (simp add: check_hard_constraints_def Let_def)

text \<open>
  C2. For a configuration with at least one p99 sample, \<^verbatim>\<open>check_hard_constraints\<close>
  fails exactly when the median p99 exceeds 50000, or the reconnect count exceeds 1, or
  both medians are positive and median p999 / median p99 exceeds 3. Each of the three
  violations is reported exactly under its own condition, so a ratio whose p99 or p999
  median is not positive (or whose p999 sequence is empty, read as 0) adds no violation.
\<close>

theorem check_hard_constraints_exact:
  assumes "p99_samples m \<noteq> []"
  shows "((\<not> fst (check_hard_constraints m)) =
           (median_of (p99_samples m) > 50000
            \<or> reconnects m > 1
            \<or> (p999_samples m \<noteq> [] \<and> median_of (p99_samples m) > 0
                \<and> median_of (p999_samples m) > 0
                \<and> median_of (p999_samples m) / median_of (p99_samples m) > 3)))
    \<and> (fst (check_hard_constraints m) = (snd (check_hard_constraints m) = []))
    \<and> ((\<exists>v. P99OverLimit v \<in> set (snd (check_hard_constraints m))) =
           (median_of (p99_samples m) > 50000))
    \<and> ((\<exists>v. ReconnectsOverLimit v \<in> set (snd (check_hard_constraints m))) =
           (reconnects m > 1))
    \<and> ((\<exists>v. RatioOverLimit v \<in> set (snd (check_hard_constraints m))) =
           (p999_samples m \<noteq> [] \<and> median_of (p99_samples m) > 0
            \<and> median_of (p999_samples m) > 0
            \<and> median_of (p999_samples m) / median_of (p99_samples m) > 3))
    \<and> NoDataCollected \<notin> set (snd (check_hard_constraints m))"
  using assms by (auto simp add: check_hard_constraints_nonempty Let_def)


theorem check_hard_constraints_exact_witness:
  "p99_samples cfg_heavy_tail \<noteq> []
   \<and> median_of (p99_samples cfg_heavy_tail) = 11000
   \<and> median_of (p999_samples cfg_heavy_tail) = 40000
   \<and> check_hard_constraints cfg_heavy_tail = (False, [RatioOverLimit (40 / 11)])
   \<and> \<not> fst (check_hard_constraints cfg_heavy_tail)"
proof -
  have h: "p99_samples cfg_heavy_tail \<noteq> []"
    by (simp add: cfg_heavy_tail_def example_config_def)
  have m99: "median_of (p99_samples cfg_heavy_tail) = 11000"
    by (simp add: cfg_heavy_tail_def example_config_def median_of_def)
  have m999: "median_of (p999_samples cfg_heavy_tail) = 40000"
    by (simp add: cfg_heavy_tail_def example_config_def median_of_def)
  have ne: "p999_samples cfg_heavy_tail \<noteq> []"
    by (simp add: cfg_heavy_tail_def example_config_def)
  have r: "reconnects cfg_heavy_tail = 0"
    by (simp add: cfg_heavy_tail_def example_config_def)
  have c: "check_hard_constraints cfg_heavy_tail = (False, [RatioOverLimit (40 / 11)])"
    using h ne m99 m999 r by (simp add: check_hard_constraints_def)
  show ?thesis
    using h m99 m999 c check_hard_constraints_exact [OF h] by simp
qed

section \<open>Score\<close>

lemma median_in_all_p99:
  "m \<in> set ms \<Longrightarrow> p99_samples m \<noteq> [] \<Longrightarrow> median_of (p99_samples m) \<in> set (all_p99 ms)"
  by (auto simp add: all_p99_def)

lemma median_in_all_cv:
  "m \<in> set ms \<Longrightarrow> cv_samples m \<noteq> [] \<Longrightarrow> median_of (cv_samples m) \<in> set (all_cv ms)"
  by (auto simp add: all_cv_def)

lemma norm_p99_bounds:
  assumes "m \<in> set ms" "p99_samples m \<noteq> []"
  shows "0 \<le> norm_p99 m ms \<and> norm_p99 m ms \<le> 1"
proof -
  let ?S = "set (all_p99 ms)"
  let ?p = "median_of (p99_samples m)"
  have mem: "?p \<in> ?S" using assms by (rule median_in_all_p99)
  have lo: "Min ?S \<le> ?p" using mem by simp
  have hi: "?p \<le> Max ?S" using mem by simp
  show ?thesis
  proof (cases "Max ?S > Min ?S")
    case True
    then have pos: "0 < Max ?S - Min ?S" by simp
    have "0 \<le> (?p - Min ?S) / (Max ?S - Min ?S)"
      using lo pos by simp
    moreover have "(?p - Min ?S) / (Max ?S - Min ?S) \<le> 1"
      using hi pos by (simp add: divide_le_eq)
    ultimately show ?thesis using True by (simp add: norm_p99_def Let_def)
  next
    case False
    then show ?thesis by (simp add: norm_p99_def Let_def)
  qed
qed

lemma norm_cv_bounds:
  assumes "m \<in> set ms" "cv_samples m \<noteq> []" "0 \<le> median_of (cv_samples m)"
  shows "\<exists>c. norm_cv m ms = Fin c \<and> 0 \<le> c \<and> c \<le> 1"
proof -
  let ?S = "set (all_cv ms)"
  let ?c = "median_of (cv_samples m)"
  have mem: "?c \<in> ?S" using assms(1,2) by (rule median_in_all_cv)
  have hi: "?c \<le> Max ?S" using mem by simp
  show ?thesis
  proof (cases "Max ?S > 0")
    case True
    have "0 \<le> ?c / Max ?S" using assms(3) True by simp
    moreover have "?c / Max ?S \<le> 1" using hi True by (simp add: divide_le_eq)
    ultimately show ?thesis using True assms(2) by (simp add: norm_cv_def np_median_def Let_def)
  next
    case False
    then show ?thesis by (simp add: norm_cv_def Let_def)
  qed
qed

text \<open>
  C4 (amended). For a member of the analysed set that has at least one p99 sample and
  at least one CV sample, and whose median CV is not negative: the normalised p99 and
  the normalised CV lie in [0, 1], and the score is 0.7 times the first plus 0.3 times
  the second, in [0, 1].
\<close>

theorem score_bounds:
  assumes "m \<in> set ms" and "p99_samples m \<noteq> []"
    and "cv_samples m \<noteq> []" and "0 \<le> median_of (cv_samples m)"
  shows "0 \<le> norm_p99 m ms \<and> norm_p99 m ms \<le> 1
    \<and> (\<exists>c s. norm_cv m ms = Fin c \<and> 0 \<le> c \<and> c \<le> 1
          \<and> fst (compute_score m ms) = Fin s
          \<and> s = 7 / 10 * norm_p99 m ms + 3 / 10 * c \<and> 0 \<le> s \<and> s \<le> 1)"
proof -
  have np: "0 \<le> norm_p99 m ms \<and> norm_p99 m ms \<le> 1"
    using assms(1,2) by (rule norm_p99_bounds)
  obtain c where c: "norm_cv m ms = Fin c" "0 \<le> c" "c \<le> 1"
    using norm_cv_bounds[OF assms(1,3,4)] by blast
  have ne: "all_p99 ms \<noteq> []" "all_cv ms \<noteq> []"
    using median_in_all_p99[OF assms(1,2)] median_in_all_cv[OF assms(1,3)] by auto
  have sc: "fst (compute_score m ms) = Fin (7 / 10 * norm_p99 m ms + 3 / 10 * c)"
    using assms(2) ne c(1) by (simp add: compute_score_def weighted_def)
  have "0 \<le> 7 / 10 * norm_p99 m ms + 3 / 10 * c" using np c(2) by simp
  moreover have "7 / 10 * norm_p99 m ms + 3 / 10 * c \<le> 1" using np c(3) by simp
  ultimately show ?thesis using np c sc by blast
qed

theorem score_bounds_witness:
  "cfg_slow_clean \<in> set [cfg_fast_flaky, cfg_slow_clean]
   \<and> p99_samples cfg_slow_clean \<noteq> [] \<and> cv_samples cfg_slow_clean \<noteq> []
   \<and> 0 \<le> median_of (cv_samples cfg_slow_clean)
   \<and> norm_p99 cfg_slow_clean [cfg_fast_flaky, cfg_slow_clean] = 1
   \<and> norm_cv cfg_slow_clean [cfg_fast_flaky, cfg_slow_clean] = Fin 1
   \<and> fst (compute_score cfg_slow_clean [cfg_fast_flaky, cfg_slow_clean]) = Fin 1"
proof -
  have h1: "cfg_slow_clean \<in> set [cfg_fast_flaky, cfg_slow_clean]" by simp
  have h2: "p99_samples cfg_slow_clean \<noteq> []"
    by (simp add: cfg_slow_clean_def example_config_def)
  have h3: "cv_samples cfg_slow_clean \<noteq> []"
    by (simp add: cfg_slow_clean_def example_config_def)
  have h4: "0 \<le> median_of (cv_samples cfg_slow_clean)"
    by (simp add: cfg_slow_clean_def example_config_def median_of_def)
  have np: "norm_p99 cfg_slow_clean [cfg_fast_flaky, cfg_slow_clean] = 1"
    by (simp add: norm_p99_def all_p99_def cfg_slow_clean_def cfg_fast_flaky_def
        example_config_def median_of_def)
  have nc: "norm_cv cfg_slow_clean [cfg_fast_flaky, cfg_slow_clean] = Fin 1"
    by (simp add: norm_cv_def all_cv_def np_median_def cfg_slow_clean_def cfg_fast_flaky_def
        example_config_def median_of_def)
  show ?thesis
    using h1 h2 h3 h4 np nc score_bounds [OF h1 h2 h3 h4] by auto
qed

text \<open>
  C4 as stated fails: for a log in which one probe reports a negative CV, the normalised
  CV of its configuration is -1 and its score is -0.3.
\<close>

theorem score_bounds_counterexample:
  "all_metrics_of [line_negative_cv, line_positive_cv] = Some [cfg_negative_cv, cfg_positive_cv]
   \<and> cfg_negative_cv \<in> set [cfg_negative_cv, cfg_positive_cv]
   \<and> p99_samples cfg_negative_cv = [10000]
   \<and> cv_samples cfg_negative_cv = [- 1 / 10]
   \<and> norm_cv cfg_negative_cv [cfg_negative_cv, cfg_positive_cv] = Fin (- 1)
   \<and> fst (compute_score cfg_negative_cv [cfg_negative_cv, cfg_positive_cv]) = Fin (- 3 / 10)"
proof -
  have "all_metrics_of [line_negative_cv, line_positive_cv] = Some [cfg_negative_cv, cfg_positive_cv]"
    by (simp add: all_metrics_of_def as_numbers_def load_results_def ingest_def record_key_def
      dict_key_def entry_of_def new_ConfigMetrics_def append_samples_def merge_counters_def
      gt_zero_def py_max_def example_record_def example_line_def line_negative_cv_def
      line_positive_cv_def cfg_negative_cv_def cfg_positive_cv_def example_config_def)
  moreover have "cfg_negative_cv \<in> set [cfg_negative_cv, cfg_positive_cv]
   \<and> p99_samples cfg_negative_cv = [10000]
   \<and> cv_samples cfg_negative_cv = [- 1 / 10]
   \<and> norm_cv cfg_negative_cv [cfg_negative_cv, cfg_positive_cv] = Fin (- 1)
   \<and> fst (compute_score cfg_negative_cv [cfg_negative_cv, cfg_positive_cv]) = Fin (- 3 / 10)"
    by (simp add: compute_score_def norm_p99_def norm_cv_def weighted_def all_p99_def all_cv_def
      np_median_def median_of_def cfg_negative_cv_def cfg_positive_cv_def example_config_def)
  ultimately show ?thesis by blast
qed

section \<open>Statistical comparison\<close>

text \<open>
  C5 (amended). When either p99 sequence has fewer than five values, the comparison
  returns no p-value and no interval: it returns \<^verbatim>\<open>None\<close> when either sequence is
  empty, and the dictionary with the error "insufficient samples for statistical
  comparison" when both are non-empty.
\<close>

theorem statistical_comparison_few_samples:
  assumes "length (p99_samples m1) < 5 \<or> length (p99_samples m2) < 5"
  shows "statistical_comparison mannwhitneyu bootstrap m1 m2 =
           (if p99_samples m1 = [] \<or> p99_samples m2 = [] then None
            else Some (ComparisonError ''insufficient samples for statistical comparison''))"
  using assms by (simp add: statistical_comparison_def)

theorem statistical_comparison_few_samples_witness:
  "length (p99_samples cfg_four_samples) = 4
   \<and> statistical_comparison test_raises bootstrap_zero cfg_four_samples cfg_four_samples =
       Some (ComparisonError ''insufficient samples for statistical comparison'')"
proof -
  have l: "length (p99_samples cfg_four_samples) = 4"
    by (simp add: cfg_four_samples_def example_config_def)
  then have h: "length (p99_samples cfg_four_samples) < 5 \<or> length (p99_samples cfg_four_samples) < 5"
    by simp
  have ne: "p99_samples cfg_four_samples \<noteq> []"
    using l by auto
  show ?thesis
    using l ne statistical_comparison_few_samples [OF h, of test_raises bootstrap_zero]
    by simp
qed

text \<open>
  C5 as stated fails for an empty sequence: the result is \<^verbatim>\<open>None\<close>, not the structured
  "insufficient samples" result.
\<close>

theorem statistical_comparison_counterexample:
  "p99_samples cfg_no_samples = []
   \<and> statistical_comparison test_raises bootstrap_zero cfg_no_samples cfg_four_samples = None
   \<and> statistical_comparison test_raises bootstrap_zero cfg_no_samples cfg_four_samples \<noteq>
       Some (ComparisonError ''insufficient samples for statistical comparison'')"
  by (simp add: statistical_comparison_def cfg_no_samples_def example_config_def)

section \<open>Loader: one record\<close>

lemma ingestE:
  assumes "ingest metrics record = Inr metrics'"
  obtains r f mt agg m1 counters m2 where
    "record_key record = Inr (r, f)"
    "getitem record ''metrics'' = Inr mt"
    "dict_get mt ''aggregate'' (JObj []) = Inr agg"
    "append_samples (entry_of metrics (dict_key (r, f)) r f) agg = Inr m1"
    "dict_get mt ''counters'' (JObj []) = Inr counters"
    "merge_counters m1 counters = Inr m2"
    "metrics' = AList.update (dict_key (r, f)) m2 metrics"
  using assms
  by (auto simp add: ingest_def Let_def split: sum.splits prod.splits)

lemma append_samplesE:
  assumes "append_samples m agg = Inr m1"
  obtains (skip) c n where "dict_get agg ''count'' (JNum 0) = Inr c" "num_of c = Some n" "\<not> 0 < n" "m1 = m"
  | (app) c n v50 v99 v999 vcv where "dict_get agg ''count'' (JNum 0) = Inr c" "num_of c = Some n" "0 < n"
      "dict_get agg ''p50_us'' (JNum 0) = Inr v50" "dict_get agg ''p99_us'' (JNum 0) = Inr v99"
      "dict_get agg ''p999_us'' (JNum 0) = Inr v999" "dict_get agg ''cv'' (JNum 0) = Inr vcv"
      "m1 = m\<lparr> p50_samples := p50_samples m @ [v50], p99_samples := p99_samples m @ [v99],
                p999_samples := p999_samples m @ [v999], cv_samples := cv_samples m @ [vcv] \<rparr>"
  using assms
  by (auto simp add: append_samples_def gt_zero_def split: sum.splits option.splits bool.splits if_splits)

lemma append_samples_aligned:
  "append_samples m agg = Inr m1 \<Longrightarrow> samples_aligned m \<Longrightarrow> samples_aligned m1"
  by (erule append_samplesE) (auto simp add: samples_aligned_def)

lemma append_samples_counters:
  "append_samples m agg = Inr m1 \<Longrightarrow>
     reconnects m1 = reconnects m \<and> errors m1 = errors m \<and> message_count m1 = message_count m"
  by (erule append_samplesE) auto

lemma merge_countersE:
  assumes "merge_counters m counters = Inr m2"
  obtains v1 r1 v2 r2 v3 r3 where
    "dict_get counters ''reconnects'' (JNum 0) = Inr v1" "num_of v1 = Some r1"
    "dict_get counters ''errors'' (JNum 0) = Inr v2" "num_of v2 = Some r2"
    "dict_get counters ''messages'' (JNum 0) = Inr v3" "num_of v3 = Some r3"
    "m2 = m\<lparr> reconnects := max (reconnects m) r1, errors := max (errors m) r2,
              message_count := max (message_count m) r3 \<rparr>"
  using assms
  by (auto simp add: merge_counters_def py_max_def split: sum.splits option.splits)

lemma merge_counters_aligned:
  "merge_counters m counters = Inr m2 \<Longrightarrow> samples_aligned m \<Longrightarrow> samples_aligned m2"
  by (erule merge_countersE) (auto simp add: samples_aligned_def)

lemma set_update_subset:
  "x \<in> set (AList.update k v al) \<Longrightarrow> x = (k, v) \<or> x \<in> set al"
  by (induction al) (auto split: if_splits)

lemma entry_of_aligned:
  assumes "\<forall>(k, m) \<in> set metrics. samples_aligned m"
  shows "samples_aligned (entry_of metrics k r f)"
proof (cases "map_of metrics k")
  case None
  then show ?thesis by (simp add: entry_of_def new_ConfigMetrics_def samples_aligned_def)
next
  case (Some m)
  then have "(k, m) \<in> set metrics" by (rule map_of_SomeD)
  then show ?thesis using assms Some by (auto simp add: entry_of_def)
qed

lemma ingest_aligned:
  assumes "ingest metrics record = Inr metrics'" "\<forall>(k, m) \<in> set metrics. samples_aligned m"
  shows "\<forall>(k, m) \<in> set metrics'. samples_aligned m"
proof -
  from assms(1) obtain r f agg m1 counters m2 where
    a: "append_samples (entry_of metrics (dict_key (r, f)) r f) agg = Inr m1"
    and c: "merge_counters m1 counters = Inr m2"
    and u: "metrics' = AList.update (dict_key (r, f)) m2 metrics"
    by (rule ingestE)
  have "samples_aligned m2"
    using a c entry_of_aligned[OF assms(2)] append_samples_aligned merge_counters_aligned by blast
  then show ?thesis using u assms(2) set_update_subset by fastforce
qed

lemma load_loop_aligned:
  "load_loop n ls w metrics = (w', Inr metrics') \<Longrightarrow>
   \<forall>(k, m) \<in> set metrics. samples_aligned m \<Longrightarrow>
   \<forall>(k, m) \<in> set metrics'. samples_aligned m"
proof (induction n ls w metrics rule: load_loop.induct)
  case (1 line_num warnings metrics)
  then show ?case by simp
next
  case (2 line_num ls warnings metrics)
  then show ?case by simp
next
  case (3 line_num rcd ls warnings metrics)
  then obtain mid where mid: "ingest metrics rcd = Inr mid"
    by (auto split: sum.splits)
  then have "\<forall>(k, m) \<in> set mid. samples_aligned m" using 3(3) ingest_aligned by blast
  then show ?case using 3 mid by simp
qed

lemma load_loop_filter:
  "snd (load_loop n (filter (\<lambda>l. l \<noteq> None) ls) w metrics) = snd (load_loop n' ls w' metrics)"
proof (induction ls arbitrary: n w n' w' metrics)
  case Nil
  then show ?case by simp
next
  case (Cons l ls)
  show ?case
  proof (cases l)
    case None
    then show ?thesis using Cons.IH [of n w metrics "Suc n'" "w' @ [n']"] by simp
  next
    case (Some rcd)
    show ?thesis
    proof (cases "ingest metrics rcd")
      case (Inl e)
      then show ?thesis using Some by simp
    next
      case (Inr mid)
      then show ?thesis using Some Cons.IH [of "Suc n" w mid "Suc n'" w'] by simp
    qed
  qed
qed

lemma load_loop_no_warnings:
  "\<forall>l \<in> set ls. l \<noteq> None \<Longrightarrow> fst (load_loop n ls w metrics) = w"
  by (induction n ls w metrics rule: load_loop.induct) (auto split: sum.splits)

lemma upt_length_Cons: "[0..<Suc n] = 0 # map Suc [0..<n]"
  by (simp add: upt_conv_Cons map_Suc_upt del: upt_Suc)

lemma load_loop_warnings:
  "snd (load_loop n ls w metrics) = Inr metrics' \<Longrightarrow>
   fst (load_loop n ls w metrics) =
     w @ map (\<lambda>i. n + i) (filter (\<lambda>i. ls ! i = None) [0..<length ls])"
proof (induction n ls w metrics rule: load_loop.induct)
  case (1 line_num warnings metrics)
  then show ?case by simp
next
  case (2 line_num ls warnings metrics)
  then show ?case
    by (simp add: upt_length_Cons filter_map comp_def del: upt_Suc)
next
  case (3 line_num rcd ls warnings metrics)
  then show ?case
    by (auto simp add: upt_length_Cons filter_map comp_def simp del: upt_Suc split: sum.splits)
qed

section \<open>Loader: counters\<close>

lemma reports_append: "reports name k (xs @ ys) = reports name k xs @ reports name k ys"
proof (induction xs)
  case Nil
  then show ?case by simp
next
  case (Cons x xs)
  then show ?case by (cases x) simp_all
qed

lemma in_reports:
  "(v \<in> set (reports name k ls)) =
     (\<exists>rcd. Some rcd \<in> set ls \<and> key_of rcd = Some k \<and> reported_counter rcd name = Some v)"
proof (induction name k ls rule: reports.induct)
  case (1 name k)
  then show ?case by simp
next
  case (2 name k ls)
  then show ?case by simp
next
  case (3 name k rcd ls)
  show ?case
  proof (cases "key_of rcd = Some k")
    case True
    show ?thesis
    proof (cases "reported_counter rcd name")
      case None
      then show ?thesis using 3 True by auto
    next
      case (Some v')
      then show ?thesis using 3 True by auto
    qed
  next
    case False
    then show ?thesis using 3 by auto
  qed
qed

lemma reports_perm:
  assumes "mset ls' = mset ls"
  shows "set (reports name k ls') = set (reports name k ls)"
proof -
  have "set ls' = set ls" using assms by (metis set_mset_mset)
  then show ?thesis using in_reports by blast
qed

lemma counters_inv_None:
  "counters_inv pre metrics \<Longrightarrow> map_of metrics k = None \<Longrightarrow> reports name k pre = []"
  unfolding counters_inv_def by blast

lemma counters_inv_Some:
  "counters_inv pre metrics \<Longrightarrow> map_of metrics k = Some m \<Longrightarrow>
     reconnects m = Max (set (0 # reports ''reconnects'' k pre))
     \<and> errors m = Max (set (0 # reports ''errors'' k pre))
     \<and> message_count m = Max (set (0 # reports ''messages'' k pre))"
  unfolding counters_inv_def by blast

lemma counters_inv_cong:
  assumes "counters_inv pre metrics" "\<And>name k. reports name k pre' = reports name k pre"
  shows "counters_inv pre' metrics"
  using assms unfolding counters_inv_def by presburger

lemma Max_snoc: "Max (set (0 # xs @ [r])) = max (Max (set (0 # xs))) (r::rat)"
proof -
  have "set (0 # xs @ [r]) = insert r (set (0 # xs))" by auto
  then show ?thesis by (simp add: max.commute)
qed

lemma Max_zero_le: "(0::rat) \<le> Max (set (0 # xs))"
  by simp

lemma counter_step:
  assumes "getitem rcd ''metrics'' = Inr mt"
    and "dict_get mt ''counters'' (JObj []) = Inr counters"
    and "dict_get counters name (JNum 0) = Inr v"
    and "num_of v = Some r"
  shows "reported_counter rcd name = Some r \<or> (reported_counter rcd name = None \<and> r = 0)"
proof -
  obtain mtl where mt: "mt = JObj mtl" using assms(2) by (cases mt) simp_all
  obtain cs where cs: "counters = JObj cs" using assms(3) by (cases counters) simp_all
  show ?thesis
  proof (cases "map_of mtl ''counters''")
    case None
    then have "cs = []" using assms(2) mt cs by simp
    then have "v = JNum 0" using assms(3) cs by simp
    then show ?thesis using assms(1,4) mt None by (simp add: reported_counter_def)
  next
    case (Some c)
    then have c: "c = JObj cs" using assms(2) mt cs by simp
    show ?thesis
    proof (cases "map_of cs name")
      case None
      then have "v = JNum 0" using assms(3) cs by simp
      then show ?thesis using assms(1,4) mt Some c None by (simp add: reported_counter_def)
    next
      case (Some v')
      then have "v' = v" using assms(3) cs by simp
      then show ?thesis using assms(1,4) mt \<open>map_of mtl ''counters'' = Some c\<close> c Some
        by (simp add: reported_counter_def)
    qed
  qed
qed

lemma watermark_step:
  assumes "old = Max (set (0 # (rs::rat list)))"
    and "rep = Some r \<or> (rep = None \<and> r = 0)"
  shows "max old r = Max (set (0 # rs @ (case rep of None \<Rightarrow> [] | Some v \<Rightarrow> [v])))"
proof -
  from assms(2) show ?thesis
  proof
    assume "rep = Some r"
    then show ?thesis using assms(1) Max_snoc [of rs r] by simp
  next
    assume "rep = None \<and> r = 0"
    then show ?thesis using assms(1) Max_zero_le [of rs] by simp
  qed
qed

lemma entry_of_counters:
  assumes "counters_inv pre metrics"
  shows "reconnects (entry_of metrics k r f) = Max (set (0 # reports ''reconnects'' k pre))
       \<and> errors (entry_of metrics k r f) = Max (set (0 # reports ''errors'' k pre))
       \<and> message_count (entry_of metrics k r f) = Max (set (0 # reports ''messages'' k pre))"
proof (cases "map_of metrics k")
  case None
  then have "reports name k pre = []" for name
    using assms counters_inv_None by blast
  then show ?thesis using None by (simp add: entry_of_def new_ConfigMetrics_def)
next
  case (Some m)
  then show ?thesis using counters_inv_Some [OF assms Some] by (simp add: entry_of_def)
qed

lemma ingest_counters_inv:
  assumes "ingest metrics rcd = Inr metrics'" and "counters_inv pre metrics"
  shows "counters_inv (pre @ [Some rcd]) metrics'"
proof -
  from assms(1) obtain r f mt agg m1 counters m2 where
    rk: "record_key rcd = Inr (r, f)"
    and gm: "getitem rcd ''metrics'' = Inr mt"
    and a: "append_samples (entry_of metrics (dict_key (r, f)) r f) agg = Inr m1"
    and dc: "dict_get mt ''counters'' (JObj []) = Inr counters"
    and mc: "merge_counters m1 counters = Inr m2"
    and u: "metrics' = AList.update (dict_key (r, f)) m2 metrics"
    by (rule ingestE)
  let ?k = "dict_key (r, f)"
  let ?e = "entry_of metrics ?k r f"
  from mc obtain v1 r1 v2 r2 v3 r3 where
    g1: "dict_get counters ''reconnects'' (JNum 0) = Inr v1" "num_of v1 = Some r1"
    and g2: "dict_get counters ''errors'' (JNum 0) = Inr v2" "num_of v2 = Some r2"
    and g3: "dict_get counters ''messages'' (JNum 0) = Inr v3" "num_of v3 = Some r3"
    and m2: "m2 = m1\<lparr> reconnects := max (reconnects m1) r1, errors := max (errors m1) r2,
              message_count := max (message_count m1) r3 \<rparr>"
    by (rule merge_countersE)
  have m1: "reconnects m1 = reconnects ?e \<and> errors m1 = errors ?e \<and> message_count m1 = message_count ?e"
    using a by (rule append_samples_counters)
  have e: "reconnects ?e = Max (set (0 # reports ''reconnects'' ?k pre))
       \<and> errors ?e = Max (set (0 # reports ''errors'' ?k pre))
       \<and> message_count ?e = Max (set (0 # reports ''messages'' ?k pre))"
    using assms(2) by (rule entry_of_counters)
  have s1: "reported_counter rcd ''reconnects'' = Some r1 \<or> (reported_counter rcd ''reconnects'' = None \<and> r1 = 0)"
    using gm dc g1 by (rule counter_step)
  have s2: "reported_counter rcd ''errors'' = Some r2 \<or> (reported_counter rcd ''errors'' = None \<and> r2 = 0)"
    using gm dc g2 by (rule counter_step)
  have s3: "reported_counter rcd ''messages'' = Some r3 \<or> (reported_counter rcd ''messages'' = None \<and> r3 = 0)"
    using gm dc g3 by (rule counter_step)
  have ko: "key_of rcd = Some ?k" using rk by (simp add: key_of_def)
  have here: "reports name ?k (pre @ [Some rcd]) =
      reports name ?k pre @ (case reported_counter rcd name of None \<Rightarrow> [] | Some v \<Rightarrow> [v])" for name
    using ko by (simp add: reports_append)
  have other: "reports name k (pre @ [Some rcd]) = reports name k pre" if "k \<noteq> ?k" for name k
    using ko that by (auto simp add: reports_append)
  have w1: "reconnects m2 = Max (set (0 # reports ''reconnects'' ?k (pre @ [Some rcd])))"
    using m2 m1 e watermark_step [OF _ s1] here by simp
  have w2: "errors m2 = Max (set (0 # reports ''errors'' ?k (pre @ [Some rcd])))"
    using m2 m1 e watermark_step [OF _ s2] here by simp
  have w3: "message_count m2 = Max (set (0 # reports ''messages'' ?k (pre @ [Some rcd])))"
    using m2 m1 e watermark_step [OF _ s3] here by simp
  have mp: "map_of metrics' = (map_of metrics)(?k \<mapsto> m2)"
    using u by (simp add: update_conv')
  show ?thesis
    unfolding counters_inv_def
  proof (intro allI conjI impI)
    fix k name
    assume "map_of metrics' k = None"
    then have "k \<noteq> ?k" "map_of metrics k = None" using mp by (auto split: if_splits)
    then show "reports name k (pre @ [Some rcd]) = []"
      using other counters_inv_None [OF assms(2)] by simp
  next
    fix k m
    assume km: "map_of metrics' k = Some m"
    show "reconnects m = Max (set (0 # reports ''reconnects'' k (pre @ [Some rcd])))"
    proof (cases "k = ?k")
      case True
      then show ?thesis using km mp w1 by simp
    next
      case False
      then show ?thesis using km mp other counters_inv_Some [OF assms(2), of k m] by simp
    qed
    show "errors m = Max (set (0 # reports ''errors'' k (pre @ [Some rcd])))"
    proof (cases "k = ?k")
      case True
      then show ?thesis using km mp w2 by simp
    next
      case False
      then show ?thesis using km mp other counters_inv_Some [OF assms(2), of k m] by simp
    qed
    show "message_count m = Max (set (0 # reports ''messages'' k (pre @ [Some rcd])))"
    proof (cases "k = ?k")
      case True
      then show ?thesis using km mp w3 by simp
    next
      case False
      then show ?thesis using km mp other counters_inv_Some [OF assms(2), of k m] by simp
    qed
  qed
qed

lemma load_loop_counters_inv:
  "snd (load_loop n ls w metrics) = Inr metrics' \<Longrightarrow> counters_inv pre metrics \<Longrightarrow>
   counters_inv (pre @ ls) metrics'"
proof (induction ls arbitrary: n w metrics pre)
  case Nil
  then show ?case by simp
next
  case (Cons l ls)
  show ?case
  proof (cases l)
    case None
    have "reports name k (pre @ [None]) = reports name k pre" for name k
      by (simp add: reports_append)
    then have "counters_inv (pre @ [None]) metrics"
      using Cons.prems(2) counters_inv_cong by blast
    then have "counters_inv ((pre @ [None]) @ ls) metrics'"
      using Cons.IH [of "Suc n" "w @ [n]" metrics "pre @ [None]"] Cons.prems(1) None by simp
    then show ?thesis using None by simp
  next
    case (Some rcd)
    then obtain mid where mid: "ingest metrics rcd = Inr mid"
      using Cons.prems(1) by (auto split: sum.splits)
    then have "counters_inv (pre @ [Some rcd]) mid"
      using Cons.prems(2) ingest_counters_inv by blast
    then have "counters_inv ((pre @ [Some rcd]) @ ls) metrics'"
      using Cons.IH [of "Suc n" w mid "pre @ [Some rcd]"] Cons.prems(1) Some mid by simp
    then show ?thesis using Some by simp
  qed
qed

lemma load_results_counters:
  assumes "snd (load_results ls) = Inr metrics" "map_of metrics k = Some m"
  shows "reconnects m = Max (set (0 # reports ''reconnects'' k ls))
       \<and> errors m = Max (set (0 # reports ''errors'' k ls))
       \<and> message_count m = Max (set (0 # reports ''messages'' k ls))"
proof -
  have "counters_inv [] []" by (simp add: counters_inv_def)
  then have "counters_inv ([] @ ls) metrics"
    using assms(1) load_loop_counters_inv unfolding load_results_def by blast
  then show ?thesis using counters_inv_Some assms(2) by simp
qed

section \<open>Loader: the whole file\<close>

lemma load_loop_snd_indep:
  "snd (load_loop n ls w metrics) = snd (load_loop n' ls w' metrics)"
proof -
  have "snd (load_loop n (filter (\<lambda>l. l \<noteq> None) ls) w metrics) = snd (load_loop n ls w metrics)"
    by (rule load_loop_filter)
  moreover have "snd (load_loop n (filter (\<lambda>l. l \<noteq> None) ls) w metrics) = snd (load_loop n' ls w' metrics)"
    by (rule load_loop_filter)
  ultimately show ?thesis by simp
qed

lemma load_loop_append:
  "snd (load_loop n (xs @ ys) w metrics) =
     (case snd (load_loop n xs w metrics) of
        Inl e \<Rightarrow> Inl e
      | Inr mid \<Rightarrow> snd (load_loop n' ys w' mid))"
proof (induction n xs w metrics rule: load_loop.induct)
  case (1 line_num warnings metrics)
  then show ?case using load_loop_snd_indep by simp
next
  case (2 line_num ls warnings metrics)
  then show ?case by simp
next
  case (3 line_num rcd ls warnings metrics)
  then show ?case by (simp split: sum.splits)
qed

lemma load_results_snoc:
  "snd (load_results (ls @ [Some rcd])) =
     (case snd (load_results ls) of Inl e \<Rightarrow> Inl e | Inr before \<Rightarrow> ingest before rcd)"
proof -
  have "snd (load_loop 1 (ls @ [Some rcd]) [] []) =
     (case snd (load_loop 1 ls [] []) of
        Inl e \<Rightarrow> Inl e
      | Inr mid \<Rightarrow> snd (load_loop 1 [Some rcd] [] mid))"
    by (rule load_loop_append)
  then show ?thesis by (simp add: load_results_def split: sum.splits)
qed

lemma load_results_aligned:
  assumes "snd (load_results ls) = Inr metrics"
  shows "\<forall>(k, m) \<in> set metrics. samples_aligned m"
proof -
  obtain w where "load_loop 1 ls [] [] = (w, Inr metrics)"
    using assms by (cases "load_loop 1 ls [] []") (simp add: load_results_def)
  then show ?thesis using load_loop_aligned [of 1 ls "[]" "[]" w metrics] by simp
qed

text \<open>
  C6 (amended). A line on which JSON decoding fails is skipped with a warning and never
  ends the load: the outcome of a load (the dictionary, or the exception a decoded line
  raised) is the outcome for the same file without the undecodable lines, that file gives
  no warning, and a load that succeeds has warned about exactly the undecodable lines, by
  line number.
\<close>

theorem load_results_skips_undecodable:
  "snd (load_results ls) = snd (load_results (filter (\<lambda>l. l \<noteq> None) ls))
   \<and> fst (load_results (filter (\<lambda>l. l \<noteq> None) ls)) = []
   \<and> (\<forall>metrics. snd (load_results ls) = Inr metrics \<longrightarrow>
         fst (load_results ls) = map Suc (filter (\<lambda>i. ls ! i = None) [0..<length ls]))"
proof -
  have a: "snd (load_results ls) = snd (load_results (filter (\<lambda>l. l \<noteq> None) ls))"
    unfolding load_results_def by (rule load_loop_filter [symmetric])
  have b: "fst (load_results (filter (\<lambda>l. l \<noteq> None) ls)) = []"
    unfolding load_results_def by (rule load_loop_no_warnings) simp
  have c: "fst (load_results ls) = map Suc (filter (\<lambda>i. ls ! i = None) [0..<length ls])"
    if "snd (load_results ls) = Inr metrics" for metrics
    using that load_loop_warnings [of 1 ls "[]" "[]" metrics] by (simp add: load_results_def)
  show ?thesis using a b c by blast
qed

lemma load_full_partial:
  "load_results [Some record_full, None, Some record_partial] =
     ([2], Inr [(key_eu_west, loaded_eu_west)])"
  by (simp add: load_results_def ingest_def record_key_def dict_key_def entry_of_def
      new_ConfigMetrics_def append_samples_def merge_counters_def gt_zero_def py_max_def
      example_record_def record_full_def record_partial_def agg_partial_def counters_partial_def key_eu_west_def loaded_eu_west_def)


lemma load_without_undecodable:
  "load_results [Some record_full, Some record_partial] =
     ([], snd (load_results [Some record_full, None, Some record_partial]))"
  by (simp add: load_results_def ingest_def record_key_def dict_key_def entry_of_def
      new_ConfigMetrics_def append_samples_def merge_counters_def gt_zero_def py_max_def
      example_record_def record_full_def record_partial_def agg_partial_def counters_partial_def key_eu_west_def loaded_eu_west_def)

theorem load_results_skips_undecodable_witness:
  "fst (load_results [Some record_full, None, Some record_partial]) = [2]
   \<and> snd (load_results [Some record_full, None, Some record_partial]) =
       snd (load_results [Some record_full, Some record_partial])
   \<and> fst (load_results [Some record_full, Some record_partial]) = []
   \<and> (\<exists>metrics. snd (load_results [Some record_full, None, Some record_partial]) = Inr metrics)"
  using load_results_skips_undecodable [of "[Some record_full, None, Some record_partial]"]
  by (simp add: load_full_partial load_without_undecodable)

text \<open>
  C6 as stated fails: a line that decodes, but not to a JSON object, is not skipped. The
  line \<^verbatim>\<open>42\<close> ends the load with \<^verbatim>\<open>TypeError\<close> at \<^verbatim>\<open>record["region"]\<close>, with no
  warning; an object without \<^verbatim>\<open>region\<close> ends it with \<^verbatim>\<open>KeyError\<close>.
\<close>

theorem load_results_counterexample:
  "load_results [Some (JNum 42)] = ([], Inl TypeError)
   \<and> load_results [Some (JObj [])] = ([], Inl KeyError)"
  by (simp add: load_results_def ingest_def record_key_def)

lemma Max_zero_drop:
  assumes "xs \<noteq> []" "\<forall>v \<in> set xs. (0::rat) \<le> v"
  shows "Max (set (0 # xs)) = Max (set xs)"
proof -
  have "0 \<le> Max (set xs)" using assms by (metis List.finite_set Max_in set_empty)
  then show ?thesis using assms(1) by (simp add: max_def)
qed

text \<open>
  C7 (amended). After a load that succeeds, each of the three counters of a key is the
  largest of 0 and the numbers the records of that key report for it; where a counter is
  reported and no report is negative, that is the largest reported number. The reports
  do not look at \<^verbatim>\<open>aggregate.count\<close>, and any reordering of the lines that loads gives
  the same three counters.
\<close>

theorem counters_are_watermarks:
  assumes "snd (load_results lines) = Inr metrics" and "map_of metrics k = Some m"
  shows "reconnects m = Max (set (0 # reports ''reconnects'' k lines))
    \<and> errors m = Max (set (0 # reports ''errors'' k lines))
    \<and> message_count m = Max (set (0 # reports ''messages'' k lines))
    \<and> (reports ''reconnects'' k lines \<noteq> [] \<and> (\<forall>v \<in> set (reports ''reconnects'' k lines). 0 \<le> v)
         \<longrightarrow> reconnects m = Max (set (reports ''reconnects'' k lines)))
    \<and> (reports ''errors'' k lines \<noteq> [] \<and> (\<forall>v \<in> set (reports ''errors'' k lines). 0 \<le> v)
         \<longrightarrow> errors m = Max (set (reports ''errors'' k lines)))
    \<and> (reports ''messages'' k lines \<noteq> [] \<and> (\<forall>v \<in> set (reports ''messages'' k lines). 0 \<le> v)
         \<longrightarrow> message_count m = Max (set (reports ''messages'' k lines)))
    \<and> (\<forall>lines' metrics' m'.
          mset lines' = mset lines \<and> snd (load_results lines') = Inr metrics'
          \<and> map_of metrics' k = Some m'
          \<longrightarrow> reconnects m' = reconnects m \<and> errors m' = errors m
              \<and> message_count m' = message_count m)"
proof -
  have w: "reconnects m = Max (set (0 # reports ''reconnects'' k lines))
    \<and> errors m = Max (set (0 # reports ''errors'' k lines))
    \<and> message_count m = Max (set (0 # reports ''messages'' k lines))"
    using assms by (rule load_results_counters)
  have p: "reconnects m' = reconnects m \<and> errors m' = errors m \<and> message_count m' = message_count m"
    if "mset lines' = mset lines" "snd (load_results lines') = Inr metrics'"
      "map_of metrics' k = Some m'" for lines' metrics' m'
  proof -
    have "reconnects m' = Max (set (0 # reports ''reconnects'' k lines'))
      \<and> errors m' = Max (set (0 # reports ''errors'' k lines'))
      \<and> message_count m' = Max (set (0 # reports ''messages'' k lines'))"
      using that(2,3) by (rule load_results_counters)
    then show ?thesis using w reports_perm [OF that(1)] by simp
  qed
  have d1: "reports ''reconnects'' k lines \<noteq> [] \<and> (\<forall>v \<in> set (reports ''reconnects'' k lines). 0 \<le> v)
         \<longrightarrow> reconnects m = Max (set (reports ''reconnects'' k lines))"
    using w Max_zero_drop [of "reports ''reconnects'' k lines"] by simp
  have d2: "reports ''errors'' k lines \<noteq> [] \<and> (\<forall>v \<in> set (reports ''errors'' k lines). 0 \<le> v)
         \<longrightarrow> errors m = Max (set (reports ''errors'' k lines))"
    using w Max_zero_drop [of "reports ''errors'' k lines"] by simp
  have d3: "reports ''messages'' k lines \<noteq> [] \<and> (\<forall>v \<in> set (reports ''messages'' k lines). 0 \<le> v)
         \<longrightarrow> message_count m = Max (set (reports ''messages'' k lines))"
    using w Max_zero_drop [of "reports ''messages'' k lines"] by simp
  have p': "\<forall>lines' metrics' m'.
          mset lines' = mset lines \<and> snd (load_results lines') = Inr metrics'
          \<and> map_of metrics' k = Some m'
          \<longrightarrow> reconnects m' = reconnects m \<and> errors m' = errors m
              \<and> message_count m' = message_count m"
    using p by blast
  from w d1 d2 d3 p' show ?thesis by (intro conjI) simp_all
qed


lemma load_idle_full:
  "load_results [Some record_idle, None, Some record_full] =
     ([2], Inr [(key_eu_west, loaded_idle_full)])"
  by (simp add: load_results_def ingest_def record_key_def dict_key_def entry_of_def
      new_ConfigMetrics_def append_samples_def merge_counters_def gt_zero_def py_max_def
      example_record_def record_full_def record_idle_def key_eu_west_def loaded_idle_full_def)

lemma reports_idle_full:
  "reports ''reconnects'' key_eu_west [Some record_idle, None, Some record_full] = [3, 1]
   \<and> reports ''errors'' key_eu_west [Some record_idle, None, Some record_full] = [2, 0]
   \<and> reports ''messages'' key_eu_west [Some record_idle, None, Some record_full] = [10, 50]"
  by (simp add: key_of_def record_key_def dict_key_def reported_counter_def
      example_record_def record_full_def record_idle_def key_eu_west_def)

theorem counters_are_watermarks_witness:
  "snd (load_results [Some record_idle, None, Some record_full]) =
     Inr [(key_eu_west, loaded_idle_full)]
   \<and> map_of [(key_eu_west, loaded_idle_full)] key_eu_west = Some loaded_idle_full
   \<and> reports ''reconnects'' key_eu_west [Some record_idle, None, Some record_full] = [3, 1]
   \<and> reports ''errors'' key_eu_west [Some record_idle, None, Some record_full] = [2, 0]
   \<and> reports ''messages'' key_eu_west [Some record_idle, None, Some record_full] = [10, 50]
   \<and> reconnects loaded_idle_full = 3
   \<and> errors loaded_idle_full = 2
   \<and> message_count loaded_idle_full = 50
   \<and> p99_samples loaded_idle_full = [JNum 900]"
proof -
  have h1: "snd (load_results [Some record_idle, None, Some record_full]) =
      Inr [(key_eu_west, loaded_idle_full)]"
    by (simp add: load_idle_full)
  have h2: "map_of [(key_eu_west, loaded_idle_full)] key_eu_west = Some loaded_idle_full"
    by simp
  have t: "reconnects loaded_idle_full =
        Max (set (0 # reports ''reconnects'' key_eu_west [Some record_idle, None, Some record_full]))
      \<and> errors loaded_idle_full =
        Max (set (0 # reports ''errors'' key_eu_west [Some record_idle, None, Some record_full]))
      \<and> message_count loaded_idle_full =
        Max (set (0 # reports ''messages'' key_eu_west [Some record_idle, None, Some record_full]))"
    using counters_are_watermarks [OF h1 h2] by blast
  have c: "reconnects loaded_idle_full = 3 \<and> errors loaded_idle_full = 2
      \<and> message_count loaded_idle_full = 50 \<and> p99_samples loaded_idle_full = [JNum 900]"
    by (simp add: loaded_idle_full_def)
  show ?thesis
    using h1 h2 t c reports_idle_full by blast
qed

lemma load_negative:
  "load_results [Some record_negative] = ([], Inr [(key_eu_west, loaded_negative)])"
  by (simp add: load_results_def ingest_def record_key_def dict_key_def entry_of_def
      new_ConfigMetrics_def append_samples_def merge_counters_def gt_zero_def py_max_def
      example_record_def record_negative_def key_eu_west_def loaded_negative_def)

lemma reports_negative:
  "reports ''reconnects'' key_eu_west [Some record_negative] = [- 1]"
  by (simp add: key_of_def record_key_def dict_key_def reported_counter_def
      example_record_def record_negative_def key_eu_west_def)

text \<open>
  C7 as stated fails: the only record of the key reports -1 reconnects, and the loaded
  counter is 0, the initial value of the watermark.
\<close>

theorem counters_are_watermarks_counterexample:
  "load_results [Some record_negative] = ([], Inr [(key_eu_west, loaded_negative)])
   \<and> reports ''reconnects'' key_eu_west [Some record_negative] = [- 1]
   \<and> reconnects loaded_negative = 0"
  using load_negative reports_negative by (simp add: loaded_negative_def new_ConfigMetrics_def)

lemma update_entry: "map_of (AList.update k v al) k = Some v"
  by (simp add: update_conv')

lemma load_loop_snoc_fst:
  "snd (load_loop n ls w metrics) = Inr mid \<Longrightarrow>
   fst (load_loop n (ls @ [Some rcd]) w metrics) = fst (load_loop n ls w metrics)"
proof (induction n ls w metrics rule: load_loop.induct)
  case (1 line_num warnings metrics)
  then show ?case by (simp split: sum.splits)
next
  case (2 line_num ls warnings metrics)
  then show ?case by simp
next
  case (3 line_num r ls warnings metrics)
  then show ?case by (simp split: sum.splits)
qed

lemma counter_numeric:
  assumes "\<forall>v. map_of cs name = Some v \<longrightarrow> (\<exists>x. num_of v = Some x)"
  shows "\<exists>x. num_of (case map_of cs name of None \<Rightarrow> JNum 0 | Some v \<Rightarrow> v) = Some x"
  using assms by (cases "map_of cs name") simp_all

lemma merge_counters_numeric:
  assumes "\<forall>name \<in> {''reconnects'', ''errors'', ''messages''}.
      \<forall>v. map_of cs name = Some v \<longrightarrow> (\<exists>x. num_of v = Some x)"
  shows "\<exists>r1 r2 r3. merge_counters m (JObj cs) =
      Inr (m\<lparr> reconnects := r1, errors := r2, message_count := r3 \<rparr>)"
proof -
  obtain x1 where x1: "num_of (case map_of cs ''reconnects'' of None \<Rightarrow> JNum 0 | Some v \<Rightarrow> v) = Some x1"
    using assms counter_numeric [of cs "''reconnects''"] by auto
  obtain x2 where x2: "num_of (case map_of cs ''errors'' of None \<Rightarrow> JNum 0 | Some v \<Rightarrow> v) = Some x2"
    using assms counter_numeric [of cs "''errors''"] by auto
  obtain x3 where x3: "num_of (case map_of cs ''messages'' of None \<Rightarrow> JNum 0 | Some v \<Rightarrow> v) = Some x3"
    using assms counter_numeric [of cs "''messages''"] by auto
  have "merge_counters m (JObj cs) =
      Inr (m\<lparr> reconnects := max (reconnects m) x1, errors := max (errors m) x2,
               message_count := max (message_count m) x3 \<rparr>)"
    using x1 x2 x3 by (simp add: merge_counters_def py_max_def)
  then show ?thesis by blast
qed

lemma append_samples_positive:
  assumes "map_of agg ''count'' = Some c" "num_of c = Some n" "0 < n"
  shows "append_samples m (JObj agg) =
     Inr (m\<lparr> p50_samples := p50_samples m @ [case map_of agg ''p50_us'' of None \<Rightarrow> JNum 0 | Some v \<Rightarrow> v],
             p99_samples := p99_samples m @ [case map_of agg ''p99_us'' of None \<Rightarrow> JNum 0 | Some v \<Rightarrow> v],
             p999_samples := p999_samples m @ [case map_of agg ''p999_us'' of None \<Rightarrow> JNum 0 | Some v \<Rightarrow> v],
             cv_samples := cv_samples m @ [case map_of agg ''cv'' of None \<Rightarrow> JNum 0 | Some v \<Rightarrow> v] \<rparr>)"
  using assms by (simp add: append_samples_def gt_zero_def)

lemma update_other: "k' \<noteq> k \<Longrightarrow> map_of (AList.update k v al) k' = map_of al k'"
  by (simp add: update_conv')


text \<open>
  C10. Take a log that loads, and a record with a hashable region and instance family
  whose \<^verbatim>\<open>metrics\<close> are a dictionary, whose aggregate is a dictionary with a positive
  \<^verbatim>\<open>count\<close>, and whose counters, if it has any, are a dictionary in which the three
  counters read are numbers. Then the log followed by that record loads, with no warning
  for the record: each of the four sample sequences of its key is the sequence before it
  (empty for a new key) with one value appended, which is the field of the aggregate, or
  the number 0 when the aggregate lacks the field; the other keys are as before. In every
  loaded dictionary the four sequences of each configuration have the same length.
\<close>

theorem loader_appends_aligned:
  assumes "snd (load_results lines) = Inr before"
    and "record_key rcd = Inr (r, f)"
    and "getitem rcd ''metrics'' = Inr (JObj mt)"
    and "map_of mt ''aggregate'' = Some (JObj agg)"
    and "map_of agg ''count'' = Some c" and "num_of c = Some n" and "0 < n"
    and "dict_get (JObj mt) ''counters'' (JObj []) = Inr (JObj cs)"
    and "\<forall>name \<in> {''reconnects'', ''errors'', ''messages''}.
           \<forall>v. map_of cs name = Some v \<longrightarrow> (\<exists>x. num_of v = Some x)"
  shows "(\<exists>after m. load_results (lines @ [Some rcd]) = (fst (load_results lines), Inr after)
          \<and> map_of after (dict_key (r, f)) = Some m
          \<and> p50_samples m = p50_samples (entry_of before (dict_key (r, f)) r f)
              @ [case map_of agg ''p50_us'' of None \<Rightarrow> JNum 0 | Some v \<Rightarrow> v]
          \<and> p99_samples m = p99_samples (entry_of before (dict_key (r, f)) r f)
              @ [case map_of agg ''p99_us'' of None \<Rightarrow> JNum 0 | Some v \<Rightarrow> v]
          \<and> p999_samples m = p999_samples (entry_of before (dict_key (r, f)) r f)
              @ [case map_of agg ''p999_us'' of None \<Rightarrow> JNum 0 | Some v \<Rightarrow> v]
          \<and> cv_samples m = cv_samples (entry_of before (dict_key (r, f)) r f)
              @ [case map_of agg ''cv'' of None \<Rightarrow> JNum 0 | Some v \<Rightarrow> v]
          \<and> (\<forall>k. k \<noteq> dict_key (r, f) \<longrightarrow> map_of after k = map_of before k))
    \<and> (\<forall>ls metrics. snd (load_results ls) = Inr metrics \<longrightarrow>
          (\<forall>(k, m) \<in> set metrics. samples_aligned m))"
proof -
  let ?k = "dict_key (r, f)"
  let ?e = "entry_of before ?k r f"
  let ?m1 = "?e\<lparr> p50_samples := p50_samples ?e @ [case map_of agg ''p50_us'' of None \<Rightarrow> JNum 0 | Some v \<Rightarrow> v],
                 p99_samples := p99_samples ?e @ [case map_of agg ''p99_us'' of None \<Rightarrow> JNum 0 | Some v \<Rightarrow> v],
                 p999_samples := p999_samples ?e @ [case map_of agg ''p999_us'' of None \<Rightarrow> JNum 0 | Some v \<Rightarrow> v],
                 cv_samples := cv_samples ?e @ [case map_of agg ''cv'' of None \<Rightarrow> JNum 0 | Some v \<Rightarrow> v] \<rparr>"
  have a: "append_samples ?e (JObj agg) = Inr ?m1"
    using assms(5,6,7) by (rule append_samples_positive)
  obtain r1 r2 r3 where
    mc: "merge_counters ?m1 (JObj cs) = Inr (?m1\<lparr> reconnects := r1, errors := r2, message_count := r3 \<rparr>)"
    using merge_counters_numeric [OF assms(9)] by blast
  let ?m2 = "?m1\<lparr> reconnects := r1, errors := r2, message_count := r3 \<rparr>"
  let ?after = "AList.update ?k ?m2 before"
  have ga: "dict_get (JObj mt) ''aggregate'' (JObj []) = Inr (JObj agg)"
    using assms(4) by simp
  have ing: "ingest before rcd = Inr ?after"
    using assms(2,3,8) ga a mc by (simp add: ingest_def Let_def)
  have s: "snd (load_results (lines @ [Some rcd])) = Inr ?after"
    using assms(1) ing by (simp add: load_results_snoc)
  have w: "fst (load_results (lines @ [Some rcd])) = fst (load_results lines)"
    using assms(1) unfolding load_results_def by (rule load_loop_snoc_fst)
  have l: "load_results (lines @ [Some rcd]) = (fst (load_results lines), Inr ?after)"
    using s w by (simp add: prod_eq_iff)
  have e: "map_of ?after ?k = Some ?m2" by (rule update_entry)
  have o: "\<forall>k. k \<noteq> ?k \<longrightarrow> map_of ?after k = map_of before k"
    by (simp add: update_other)
  have first: "\<exists>after m. load_results (lines @ [Some rcd]) = (fst (load_results lines), Inr after)
          \<and> map_of after ?k = Some m
          \<and> p50_samples m = p50_samples ?e @ [case map_of agg ''p50_us'' of None \<Rightarrow> JNum 0 | Some v \<Rightarrow> v]
          \<and> p99_samples m = p99_samples ?e @ [case map_of agg ''p99_us'' of None \<Rightarrow> JNum 0 | Some v \<Rightarrow> v]
          \<and> p999_samples m = p999_samples ?e @ [case map_of agg ''p999_us'' of None \<Rightarrow> JNum 0 | Some v \<Rightarrow> v]
          \<and> cv_samples m = cv_samples ?e @ [case map_of agg ''cv'' of None \<Rightarrow> JNum 0 | Some v \<Rightarrow> v]
          \<and> (\<forall>k. k \<noteq> ?k \<longrightarrow> map_of after k = map_of before k)"
  proof (intro exI conjI)
    show "load_results (lines @ [Some rcd]) = (fst (load_results lines), Inr ?after)" by (rule l)
    show "map_of ?after ?k = Some ?m2" by (rule e)
    show "\<forall>k. k \<noteq> ?k \<longrightarrow> map_of ?after k = map_of before k" by (rule o)
  qed simp_all
  have second: "\<forall>ls metrics. snd (load_results ls) = Inr metrics \<longrightarrow>
          (\<forall>(k, m) \<in> set metrics. samples_aligned m)"
    using load_results_aligned by blast
  show ?thesis using first second by (rule conjI)
qed

lemma load_first:
  "load_results [Some record_full] = ([], Inr [(key_eu_west, loaded_first)])"
  by (simp add: load_results_def ingest_def record_key_def dict_key_def entry_of_def
      new_ConfigMetrics_def append_samples_def merge_counters_def gt_zero_def py_max_def
      example_record_def record_full_def key_eu_west_def loaded_first_def)

lemma load_first_partial:
  "load_results ([Some record_full] @ [Some record_partial]) =
     ([], Inr [(key_eu_west, loaded_eu_west)])"
  by (simp add: load_results_def ingest_def record_key_def dict_key_def entry_of_def
      new_ConfigMetrics_def append_samples_def merge_counters_def gt_zero_def py_max_def
      example_record_def record_full_def record_partial_def agg_partial_def
      counters_partial_def key_eu_west_def loaded_eu_west_def)


theorem loader_appends_aligned_witness:
  "snd (load_results [Some record_full]) = Inr [(key_eu_west, loaded_first)]
   \<and> record_key record_partial = Inr (JStr ''eu-west-1'', JStr ''c6i.large'')
   \<and> map_of agg_partial ''count'' = Some (JNum 7)
   \<and> map_of agg_partial ''p50_us'' = None \<and> map_of agg_partial ''p99_us'' = None
   \<and> map_of agg_partial ''p999_us'' = None \<and> map_of agg_partial ''cv'' = None
   \<and> load_results ([Some record_full] @ [Some record_partial]) =
       ([], Inr [(key_eu_west, loaded_eu_west)])
   \<and> p50_samples loaded_first = [JNum 100] \<and> p50_samples loaded_eu_west = [JNum 100, JNum 0]
   \<and> p99_samples loaded_first = [JNum 900] \<and> p99_samples loaded_eu_west = [JNum 900, JNum 0]
   \<and> p999_samples loaded_first = [JNum 1500] \<and> p999_samples loaded_eu_west = [JNum 1500, JNum 0]
   \<and> cv_samples loaded_first = [JNum (1 / 10)] \<and> cv_samples loaded_eu_west = [JNum (1 / 10), JNum 0]
   \<and> samples_aligned loaded_eu_west
   \<and> median_of [900] = 900 \<and> median_of [900, 0] = 450"
proof -
  let ?k = "dict_key (JStr ''eu-west-1'', JStr ''c6i.large'')"
  have h1: "snd (load_results [Some record_full]) = Inr [(key_eu_west, loaded_first)]"
    by (simp add: load_first)
  have h2: "record_key record_partial = Inr (JStr ''eu-west-1'', JStr ''c6i.large'')"
    by (simp add: record_key_def record_partial_def example_record_def)
  have h3: "getitem record_partial ''metrics'' =
      Inr (JObj [(''aggregate'', JObj agg_partial), (''counters'', JObj counters_partial)])"
    by (simp add: record_partial_def example_record_def)
  have h4: "map_of [(''aggregate'', JObj agg_partial), (''counters'', JObj counters_partial)]
      ''aggregate'' = Some (JObj agg_partial)"
    by simp
  have h5: "map_of agg_partial ''count'' = Some (JNum 7)"
    by (simp add: agg_partial_def)
  have h6: "num_of (JNum 7) = Some 7" by simp
  have h7: "(0::rat) < 7" by simp
  have h8: "dict_get (JObj [(''aggregate'', JObj agg_partial), (''counters'', JObj counters_partial)])
      ''counters'' (JObj []) = Inr (JObj counters_partial)"
    by simp
  have h9: "\<forall>name \<in> {''reconnects'', ''errors'', ''messages''}.
           \<forall>v. map_of counters_partial name = Some v \<longrightarrow> (\<exists>x. num_of v = Some x)"
    by (simp add: counters_partial_def)
  have n: "map_of agg_partial ''p50_us'' = None" "map_of agg_partial ''p99_us'' = None"
      "map_of agg_partial ''p999_us'' = None" "map_of agg_partial ''cv'' = None"
    by (simp_all add: agg_partial_def)
  have l: "load_results ([Some record_full] @ [Some record_partial]) =
       ([], Inr [(key_eu_west, loaded_eu_west)])"
    by (rule load_first_partial)
  have k: "?k = key_eu_west" by (simp add: dict_key_def key_eu_west_def)
  have e: "entry_of [(key_eu_west, loaded_first)] ?k (JStr ''eu-west-1'') (JStr ''c6i.large'') = loaded_first"
    by (simp add: entry_of_def k)
  have b: "p50_samples loaded_first = [JNum 100]" "p99_samples loaded_first = [JNum 900]"
      "p999_samples loaded_first = [JNum 1500]" "cv_samples loaded_first = [JNum (1 / 10)]"
    by (simp_all add: loaded_first_def)
  note t = loader_appends_aligned [OF h1 h2 h3 h4 h5 h6 h7 h8 h9]
  from t obtain after m where
    am: "load_results ([Some record_full] @ [Some record_partial]) =
           (fst (load_results [Some record_full]), Inr after)"
      "map_of after ?k = Some m"
      "p50_samples m = p50_samples (entry_of [(key_eu_west, loaded_first)] ?k (JStr ''eu-west-1'') (JStr ''c6i.large''))
          @ [case map_of agg_partial ''p50_us'' of None \<Rightarrow> JNum 0 | Some v \<Rightarrow> v]"
      "p99_samples m = p99_samples (entry_of [(key_eu_west, loaded_first)] ?k (JStr ''eu-west-1'') (JStr ''c6i.large''))
          @ [case map_of agg_partial ''p99_us'' of None \<Rightarrow> JNum 0 | Some v \<Rightarrow> v]"
      "p999_samples m = p999_samples (entry_of [(key_eu_west, loaded_first)] ?k (JStr ''eu-west-1'') (JStr ''c6i.large''))
          @ [case map_of agg_partial ''p999_us'' of None \<Rightarrow> JNum 0 | Some v \<Rightarrow> v]"
      "cv_samples m = cv_samples (entry_of [(key_eu_west, loaded_first)] ?k (JStr ''eu-west-1'') (JStr ''c6i.large''))
          @ [case map_of agg_partial ''cv'' of None \<Rightarrow> JNum 0 | Some v \<Rightarrow> v]"
    by blast
  have "after = [(key_eu_west, loaded_eu_west)]" using am(1) l by simp
  then have m: "m = loaded_eu_west" using am(2) k by simp
  have s: "p50_samples loaded_eu_west = [JNum 100, JNum 0]"
      "p99_samples loaded_eu_west = [JNum 900, JNum 0]"
      "p999_samples loaded_eu_west = [JNum 1500, JNum 0]"
      "cv_samples loaded_eu_west = [JNum (1 / 10), JNum 0]"
    using am(3,4,5,6) m e b n by simp_all
  have "\<forall>(k, m) \<in> set [(key_eu_west, loaded_eu_west)]. samples_aligned m"
    using t l by (metis snd_conv)
  then have al: "samples_aligned loaded_eu_west" by simp
  have md: "median_of [900] = 900" "median_of [900, 0] = 450"
    by (simp_all add: median_of_def)
  show ?thesis
    by (intro conjI) (rule h1 h2 h5 n l b s al md)+
qed

section \<open>From the loader to the analysis\<close>

lemma those_length: "those xs = Some ys \<Longrightarrow> length ys = length xs"
  by (induction xs arbitrary: ys) (auto split: option.splits)

lemma those_nth:
  "those xs = Some ys \<Longrightarrow> i < length xs \<Longrightarrow> xs ! i = Some (ys ! i)"
proof (induction xs arbitrary: ys i)
  case Nil
  then show ?case by simp
next
  case (Cons x xs)
  then show ?case by (cases i) (auto split: option.splits)
qed

lemma as_numbers_aligned:
  assumes "as_numbers m = Some m'" "samples_aligned m"
  shows "samples_aligned m'"
proof -
  obtain s50 s99 s999 scv where
    t: "those (map num_of (p50_samples m)) = Some s50" "those (map num_of (p99_samples m)) = Some s99"
       "those (map num_of (p999_samples m)) = Some s999" "those (map num_of (cv_samples m)) = Some scv"
    and m': "m' = \<lparr> region = region m, instance_family = instance_family m,
                p50_samples = s50, p99_samples = s99, p999_samples = s999, cv_samples = scv,
                reconnects = reconnects m, errors = errors m,
                message_count = message_count m \<rparr>"
    using assms(1) by (auto simp add: as_numbers_def split: option.splits)
  have "length s50 = length (p50_samples m)" "length s99 = length (p99_samples m)"
    "length s999 = length (p999_samples m)" "length scv = length (cv_samples m)"
    using t those_length by fastforce+
  then show ?thesis using assms(2) m' by (simp add: samples_aligned_def)
qed

lemma all_metrics_of_aligned:
  assumes "all_metrics_of ls = Some ms"
  shows "\<forall>m \<in> set ms. samples_aligned m"
proof
  fix m assume m: "m \<in> set ms"
  obtain metrics where l: "snd (load_results ls) = Inr metrics"
    and t: "those (map (\<lambda>(k, m). as_numbers m) metrics) = Some ms"
    using assms by (auto simp add: all_metrics_of_def split: sum.splits)
  obtain i where i: "i < length ms" "ms ! i = m"
    using m by (auto simp add: in_set_conv_nth)
  have len: "length ms = length metrics" using t those_length by fastforce
  have "map (\<lambda>(k, m). as_numbers m) metrics ! i = Some (ms ! i)"
    using t i(1) len by (intro those_nth) simp_all
  then have a: "as_numbers (snd (metrics ! i)) = Some m"
    using i len by (simp add: case_prod_beta)
  have "metrics ! i \<in> set metrics" using i(1) len by simp
  then have "samples_aligned (snd (metrics ! i))"
    using load_results_aligned [OF l] by (auto simp add: case_prod_beta)
  then show "samples_aligned m" using a as_numbers_aligned by blast
qed

section \<open>Ranking\<close>

lemma score_config_simps:
  "sc_metrics (score_config m ms) = m"
  "passes_constraints (score_config m ms) = fst (check_hard_constraints m)"
  "violations (score_config m ms) = snd (check_hard_constraints m)"
  "score (score_config m ms) = fst (compute_score m ms)"
  by (simp_all add: score_config_def split: prod.splits)

lemma set_ranking: "set (ranking ms) = (\<lambda>m. score_config m ms) ` set ms"
  by (simp add: ranking_def scored_list_def)

lemma ranking_sorted: "sorted (map rank_key (ranking ms))"
  by (simp add: ranking_def)

lemma ranking_nth_mono:
  assumes "i \<le> j" "j < length (ranking ms)"
  shows "rank_key (ranking ms ! i) \<le> rank_key (ranking ms ! j)"
proof -
  have "map rank_key (ranking ms) ! i \<le> map rank_key (ranking ms) ! j"
    using ranking_sorted assms by (intro sorted_nth_mono) simp_all
  then show ?thesis using assms by simp
qed




lemma fin_score:
  assumes "m \<in> set ms" "p99_samples m \<noteq> []" "cv_samples m \<noteq> []"
  shows "\<exists>s. fst (compute_score m ms) = Fin s"
proof -
  have "median_of (p99_samples m) \<in> set (all_p99 ms)" "median_of (cv_samples m) \<in> set (all_cv ms)"
    using assms by (auto simp add: all_p99_def all_cv_def)
  then have "all_p99 ms \<noteq> []" "all_cv ms \<noteq> []" by auto
  then have sc: "fst (compute_score m ms) = weighted (norm_p99 m ms) (norm_cv m ms)"
    using assms by (simp add: compute_score_def)
  obtain c where "norm_cv m ms = Fin c"
    using assms(3) by (cases "0 < Max (set (all_cv ms))") (simp_all add: norm_cv_def np_median_def Let_def)
  then show ?thesis using sc by (simp add: weighted_def)
qed

lemma less_PInf: "Fin s < PInf"
  by (simp add: less_pyfloat_def)






lemma score_config_fields:
  "sc_details (score_config m ms) = snd (compute_score m ms)"
  "sc_region (score_config m ms) = region m"
  "sc_instance_family (score_config m ms) = instance_family m"
  by (simp_all add: score_config_def split: prod.splits)


lemma print_ranking_KeyError:
  assumes "x \<in> set xs" "sc_details x = ErrorDetails msg"
  shows "print_ranking xs = Some KeyError"
  using assms
proof (induction xs)
  case Nil
  then show ?case by simp
next
  case (Cons a xs)
  show ?case
  proof (cases "sc_details a")
    case (ErrorDetails m)
    then show ?thesis by simp
  next
    case (Figures p rc er mc n)
    then have "x \<noteq> a" using Cons.prems(2) by auto
    then have "x \<in> set xs" using Cons.prems(1) by simp
    then show ?thesis using Cons.IH Cons.prems(2) Figures by simp
  qed
qed











lemma analyze_without_samples:
  assumes "m \<in> set ms" "p99_samples m = []"
  shows "analyze mw bs ms out = Raised KeyError"
proof -
  have "score_config m ms \<in> set (ranking ms)"
    using assms(1) by (simp add: set_ranking)
  moreover have "sc_details (score_config m ms) = ErrorDetails ''no samples''"
    using assms(2) by (simp add: score_config_fields compute_score_def)
  ultimately have "print_ranking (ranking ms) = Some KeyError"
    by (rule print_ranking_KeyError)
  moreover have "ms \<noteq> []" using assms(1) by auto
  ultimately show ?thesis by (simp add: analyze_def Let_def)
qed





















section \<open>Configurations without samples\<close>

lemma all_p99_removeAll:
  "p99_samples m = [] \<Longrightarrow> all_p99 (removeAll m ms) = all_p99 ms"
  by (induction ms) (auto simp add: all_p99_def)

lemma all_cv_removeAll:
  "cv_samples m = [] \<Longrightarrow> all_cv (removeAll m ms) = all_cv ms"
  by (induction ms) (auto simp add: all_cv_def)

lemma compute_score_removeAll:
  assumes "p99_samples m = []" "cv_samples m = []"
  shows "compute_score x (removeAll m ms) = compute_score x ms"
  using assms
  by (simp add: compute_score_def norm_p99_def norm_cv_def all_p99_removeAll all_cv_removeAll)

lemma metrics_of_scored_list: "map sc_metrics (scored_list ms) = ms"
  by (simp add: scored_list_def score_config_simps comp_def)

lemma mset_ranking_metrics: "mset (map sc_metrics (ranking ms)) = mset ms"
proof -
  have "mset (ranking ms) = mset (scored_list ms)" by (simp add: ranking_def)
  then have "image_mset sc_metrics (mset (ranking ms)) = image_mset sc_metrics (mset (scored_list ms))"
    by simp
  then have "mset (map sc_metrics (ranking ms)) = mset (map sc_metrics (scored_list ms))"
    by simp
  then show ?thesis by (simp only: metrics_of_scored_list)
qed


text \<open>
  C3. A configuration without p99 samples fails the constraints with the single reason
  "no data collected", which no configuration with samples gets; its score is positive
  infinity; removing it changes neither normalisation list nor any score. The sorted list
  holds every configuration exactly once, this one as a failing entry with that reason
  and that score, and every entry without samples stands after every entry with samples.
  Stated for the configurations \<open>ms\<close> loaded from any log. (What \<^verbatim>\<open>analyze\<close> does
  with the sorted list next is \<open>analyze_without_samples\<close>: \<^verbatim>\<open>print_ranking\<close> raises
  \<^verbatim>\<open>KeyError\<close> when it reaches an entry without samples.)
\<close>

theorem zero_samples_ranked_last:
  assumes "all_metrics_of lines = Some ms" and "m \<in> set ms" and "p99_samples m = []"
  shows "check_hard_constraints m = (False, [NoDataCollected])
    \<and> (\<forall>x. p99_samples x \<noteq> [] \<longrightarrow> NoDataCollected \<notin> set (snd (check_hard_constraints x)))
    \<and> compute_score m ms = (PInf, ErrorDetails ''no samples'')
    \<and> all_p99 (removeAll m ms) = all_p99 ms
    \<and> all_cv (removeAll m ms) = all_cv ms
    \<and> (\<forall>x. compute_score x (removeAll m ms) = compute_score x ms)
    \<and> mset (map sc_metrics (ranking ms)) = mset ms
    \<and> (\<exists>i < length (ranking ms). ranking ms ! i = score_config m ms
          \<and> \<not> passes_constraints (ranking ms ! i)
          \<and> violations (ranking ms ! i) = [NoDataCollected]
          \<and> score (ranking ms ! i) = PInf)
    \<and> (\<forall>i j. i < length (ranking ms) \<and> j < length (ranking ms)
          \<and> p99_samples (sc_metrics (ranking ms ! i)) = []
          \<and> p99_samples (sc_metrics (ranking ms ! j)) \<noteq> []
          \<longrightarrow> j < i)"
proof -
  have al: "\<forall>x \<in> set ms. samples_aligned x"
    using assms(1) by (rule all_metrics_of_aligned)
  have cv: "cv_samples m = []" using al assms(2,3) by (auto simp add: samples_aligned_def)
  have chk: "check_hard_constraints m = (False, [NoDataCollected])"
    using assms(3) by (simp add: check_hard_constraints_def)
  have distinct: "\<forall>x. p99_samples x \<noteq> [] \<longrightarrow> NoDataCollected \<notin> set (snd (check_hard_constraints x))"
    by (simp add: check_hard_constraints_nonempty Let_def)
  have sc: "compute_score m ms = (PInf, ErrorDetails ''no samples'')"
    using assms(3) by (simp add: compute_score_def)
  have n1: "all_p99 (removeAll m ms) = all_p99 ms"
    using assms(3) by (rule all_p99_removeAll)
  have n2: "all_cv (removeAll m ms) = all_cv ms"
    using cv by (rule all_cv_removeAll)
  have n3: "\<forall>x. compute_score x (removeAll m ms) = compute_score x ms"
    using assms(3) cv by (simp add: compute_score_removeAll)
  have perm: "mset (map sc_metrics (ranking ms)) = mset ms"
    by (rule mset_ranking_metrics)
  have "score_config m ms \<in> set (ranking ms)"
    using assms(2) by (simp add: set_ranking)
  then obtain i where i: "i < length (ranking ms)" "ranking ms ! i = score_config m ms"
    by (auto simp add: in_set_conv_nth)
  have "\<not> passes_constraints (ranking ms ! i) \<and> violations (ranking ms ! i) = [NoDataCollected]
      \<and> score (ranking ms ! i) = PInf"
    using i(2) chk sc by (simp add: score_config_simps)
  then have pos: "\<exists>i < length (ranking ms). ranking ms ! i = score_config m ms
          \<and> \<not> passes_constraints (ranking ms ! i)
          \<and> violations (ranking ms ! i) = [NoDataCollected]
          \<and> score (ranking ms ! i) = PInf"
    using i by blast
  have order: "j < i"
    if ij: "i < length (ranking ms)" "j < length (ranking ms)"
      and mi: "p99_samples (sc_metrics (ranking ms ! i)) = []"
      and mj: "p99_samples (sc_metrics (ranking ms ! j)) \<noteq> []" for i j
  proof (rule ccontr)
    assume "\<not> j < i"
    then have le: "i \<le> j" by simp
    have "ranking ms ! i \<in> set (ranking ms)" using ij by simp
    then obtain a where a: "a \<in> set ms" "ranking ms ! i = score_config a ms"
      by (auto simp add: set_ranking)
    have "ranking ms ! j \<in> set (ranking ms)" using ij by simp
    then obtain b where b: "b \<in> set ms" "ranking ms ! j = score_config b ms"
      by (auto simp add: set_ranking)
    have ap: "p99_samples a = []" using a mi by (simp add: score_config_simps)
    have bp: "p99_samples b \<noteq> []" using b mj by (simp add: score_config_simps)
    have "cv_samples b \<noteq> []" using al b(1) bp by (auto simp add: samples_aligned_def)
    then obtain s where s: "fst (compute_score b ms) = Fin s"
      using fin_score b(1) bp by blast
    have "check_hard_constraints a = (False, [NoDataCollected])" "fst (compute_score a ms) = PInf"
      using ap by (simp_all add: check_hard_constraints_def compute_score_def)
    then have ki: "rank_key (ranking ms ! i) = (True, PInf)"
      using a by (simp add: rank_key_def score_config_simps)
    have kj: "rank_key (ranking ms ! j) = (\<not> fst (check_hard_constraints b), Fin s)"
      using b s by (simp add: rank_key_def score_config_simps)
    have "rank_key (ranking ms ! i) \<le> rank_key (ranking ms ! j)"
      using le ij by (intro ranking_nth_mono)
    then show False using ki kj by (simp add: less_eq_prod_def)
  qed
  then have ord: "\<forall>i j. i < length (ranking ms) \<and> j < length (ranking ms)
          \<and> p99_samples (sc_metrics (ranking ms ! i)) = []
          \<and> p99_samples (sc_metrics (ranking ms ! j)) \<noteq> []
          \<longrightarrow> j < i"
    by blast
  show ?thesis
    by (intro conjI) (rule chk distinct sc n1 n2 n3 perm pos ord)+
qed


lemma all_metrics_no_samples_first:
  "all_metrics_of [line_no_samples, line_fast_flaky, line_slow_clean] =
     Some [cfg_no_samples, cfg_fast_flaky, cfg_slow_clean]"
  by (simp add: all_metrics_of_def as_numbers_def load_results_def ingest_def record_key_def
      dict_key_def entry_of_def new_ConfigMetrics_def append_samples_def merge_counters_def
      gt_zero_def py_max_def example_record_def example_line_def line_no_samples_def
      line_fast_flaky_def line_slow_clean_def cfg_no_samples_def cfg_fast_flaky_def
      cfg_slow_clean_def example_config_def)

lemma keys_no_samples_first:
  "rank_key (score_config cfg_no_samples [cfg_no_samples, cfg_fast_flaky, cfg_slow_clean]) = (True, PInf)"
  "rank_key (score_config cfg_fast_flaky [cfg_no_samples, cfg_fast_flaky, cfg_slow_clean]) = (True, Fin (3 / 20))"
  "rank_key (score_config cfg_slow_clean [cfg_no_samples, cfg_fast_flaky, cfg_slow_clean]) = (False, Fin 1)"
  by (simp_all add: rank_key_def score_config_def check_hard_constraints_def compute_score_def
      cfg_no_samples_def cfg_fast_flaky_def cfg_slow_clean_def example_config_def all_p99_def
      all_cv_def median_of_def norm_p99_def norm_cv_def np_median_def weighted_def)

lemma ranking_no_samples_first:
  "ranking [cfg_no_samples, cfg_fast_flaky, cfg_slow_clean] =
     [score_config cfg_slow_clean [cfg_no_samples, cfg_fast_flaky, cfg_slow_clean],
      score_config cfg_fast_flaky [cfg_no_samples, cfg_fast_flaky, cfg_slow_clean],
      score_config cfg_no_samples [cfg_no_samples, cfg_fast_flaky, cfg_slow_clean]]"
  by (simp add: ranking_def scored_list_def keys_no_samples_first less_eq_prod_def)


theorem zero_samples_ranked_last_witness:
  "all_metrics_of [line_no_samples, line_fast_flaky, line_slow_clean] =
     Some [cfg_no_samples, cfg_fast_flaky, cfg_slow_clean]
   \<and> cfg_no_samples \<in> set [cfg_no_samples, cfg_fast_flaky, cfg_slow_clean]
   \<and> p99_samples cfg_no_samples = []
   \<and> check_hard_constraints cfg_no_samples = (False, [NoDataCollected])
   \<and> compute_score cfg_no_samples [cfg_no_samples, cfg_fast_flaky, cfg_slow_clean] =
       (PInf, ErrorDetails ''no samples'')
   \<and> all_p99 (removeAll cfg_no_samples [cfg_no_samples, cfg_fast_flaky, cfg_slow_clean]) =
       all_p99 [cfg_no_samples, cfg_fast_flaky, cfg_slow_clean]
   \<and> all_p99 [cfg_no_samples, cfg_fast_flaky, cfg_slow_clean] = [1000, 2000]
   \<and> ranking [cfg_no_samples, cfg_fast_flaky, cfg_slow_clean] =
       [score_config cfg_slow_clean [cfg_no_samples, cfg_fast_flaky, cfg_slow_clean],
        score_config cfg_fast_flaky [cfg_no_samples, cfg_fast_flaky, cfg_slow_clean],
        score_config cfg_no_samples [cfg_no_samples, cfg_fast_flaky, cfg_slow_clean]]
   \<and> mset (map sc_metrics (ranking [cfg_no_samples, cfg_fast_flaky, cfg_slow_clean])) =
       mset [cfg_no_samples, cfg_fast_flaky, cfg_slow_clean]"
proof -
  let ?ms = "[cfg_no_samples, cfg_fast_flaky, cfg_slow_clean]"
  have h1: "all_metrics_of [line_no_samples, line_fast_flaky, line_slow_clean] = Some ?ms"
    by (rule all_metrics_no_samples_first)
  have h2: "cfg_no_samples \<in> set ?ms" by simp
  have h3: "p99_samples cfg_no_samples = []"
    by (simp add: cfg_no_samples_def example_config_def)
  have a: "all_p99 ?ms = [1000, 2000]"
    by (simp add: all_p99_def cfg_no_samples_def cfg_fast_flaky_def cfg_slow_clean_def
        example_config_def median_of_def)
  note t = zero_samples_ranked_last [OF h1 h2 h3]
  have t1: "check_hard_constraints cfg_no_samples = (False, [NoDataCollected])"
    using t by blast
  have t2: "compute_score cfg_no_samples ?ms = (PInf, ErrorDetails ''no samples'')"
    using t by blast
  have t3: "all_p99 (removeAll cfg_no_samples ?ms) = all_p99 ?ms"
    using t by blast
  have t4: "mset (map sc_metrics (ranking ?ms)) = mset ?ms"
    using t by blast
  show ?thesis
    by (intro conjI) (rule h1 h2 h3 t1 t2 t3 a ranking_no_samples_first t4)+
qed

section \<open>Health gate\<close>

lemma sweep_healthy_iff: "sweep_healthy rs = (\<forall>r \<in> set rs. probe_healthy r)"
proof -
  have "fold (\<lambda>r all_healthy. if probe_healthy r then all_healthy else False) rs b
        = (b \<and> (\<forall>r \<in> set rs. probe_healthy r))" for b
    by (induction rs arbitrary: b) auto
  then show ?thesis by (simp add: sweep_healthy_def)
qed

lemma probe_healthy_iff: "probe_healthy r = (\<exists>body. r = Response 200 body)"
  by (cases r) (auto simp add: probe_healthy_def)

lemma sweep_start_mono: "n \<le> k \<Longrightarrow> sweep_start took n \<le> sweep_start took k"
proof (induction k)
  case 0
  then show ?case by simp
next
  case (Suc k)
  show ?case
  proof (cases "n = Suc k")
    case True
    then show ?thesis by simp
  next
    case False
    then have "sweep_start took n \<le> sweep_start took k" using Suc by simp
    moreover have "sweep_start took k \<le> sweep_start took (Suc k)" by simp
    ultimately show ?thesis by linarith
  qed
qed

lemma wait_loop_iff:
  "elapsed = sweep_start took n \<Longrightarrow>
   wait_loop health took probes timeout_sec elapsed n =
     (\<exists>k \<ge> n. sweep_start took k < of_int timeout_sec \<and> sweep_healthy (map (health k) probes))"
proof (induction health took probes timeout_sec elapsed n rule: wait_loop.induct)
  case (1 health took probes timeout_sec elapsed n)
  show ?case
  proof (cases "elapsed < of_int timeout_sec")
    case False
    then have "wait_loop health took probes timeout_sec elapsed n = False"
      by (simp add: wait_loop.simps)
    moreover have "\<not> sweep_start took k < of_int timeout_sec" if "n \<le> k" for k
      using sweep_start_mono [OF that, of took] False 1(2) by simp
    ultimately show ?thesis by blast
  next
    case True
    show ?thesis
    proof (cases "sweep_healthy (map (health n) probes)")
      case h: True
      then have "wait_loop health took probes timeout_sec elapsed n"
        using True by (simp add: wait_loop.simps)
      moreover have "sweep_start took n < of_int timeout_sec" using True 1(2) by simp
      ultimately show ?thesis using h by blast
    next
      case h: False
      have step: "wait_loop health took probes timeout_sec elapsed n =
          wait_loop health took probes timeout_sec (elapsed + of_nat (took n) / 1000 + 10) (Suc n)"
        using True h by (subst wait_loop.simps) simp
      have "elapsed + of_nat (took n) / 1000 + 10 = sweep_start took (Suc n)"
        using 1(2) by simp
      then have ih: "wait_loop health took probes timeout_sec (elapsed + of_nat (took n) / 1000 + 10) (Suc n) =
          (\<exists>k \<ge> Suc n. sweep_start took k < of_int timeout_sec \<and> sweep_healthy (map (health k) probes))"
        using 1(1) [OF True h] by simp
      have "(\<exists>k \<ge> Suc n. sweep_start took k < of_int timeout_sec \<and> sweep_healthy (map (health k) probes))
          = (\<exists>k \<ge> n. sweep_start took k < of_int timeout_sec \<and> sweep_healthy (map (health k) probes))"
        using h by (metis Suc_leD Suc_leI le_neq_implies_less)
      then show ?thesis using step ih by simp
    qed
  qed
qed

text \<open>
  C8 (amended). The health gate returns ready exactly when some poll sweep that begins
  before the timeout has elapsed finds every probe of the list answering with status
  200. A request that raises, and every other status (the other 2xx statuses too), leave
  the probe unhealthy in that sweep; when no such sweep begins before the timeout the
  gate returns not ready.
\<close>

theorem wait_for_probes_ready:
  "wait_for_probes health took probes timeout_sec =
     (\<exists>n. sweep_start took n < of_int timeout_sec
          \<and> (\<forall>p \<in> set probes. \<exists>body. health n p = Response 200 body))"
proof -
  have "wait_for_probes health took probes timeout_sec =
     (\<exists>k \<ge> 0. sweep_start took k < of_int timeout_sec \<and> sweep_healthy (map (health k) probes))"
    unfolding wait_for_probes_def by (rule wait_loop_iff) simp
  then show ?thesis by (simp add: sweep_healthy_iff probe_healthy_iff)
qed

theorem wait_for_probes_ready_witness:
  "health_late 1 probe_a = Response 200 None
   \<and> sweep_start took_1s 1 = 11
   \<and> wait_for_probes health_late took_1s [probe_a] 600"
proof -
  have h: "health_late 1 probe_a = Response 200 None" by (simp add: health_late_def)
  have s: "sweep_start took_1s 1 = 11" by (simp add: took_1s_def)
  have "sweep_start took_1s 1 < of_int 600
      \<and> (\<forall>p \<in> set [probe_a]. \<exists>body. health_late 1 p = Response 200 body)"
    using h s by simp
  then have "wait_for_probes health_late took_1s [probe_a] 600"
    using wait_for_probes_ready [of health_late took_1s "[probe_a]" 600] by blast
  then show ?thesis using h s by simp
qed

text \<open>
  C8 as stated fails: a probe that answers every health request with 204, a 2xx status,
  never passes the gate.
\<close>

theorem wait_for_probes_counterexample:
  "health_204 0 probe_a = Response 204 None
   \<and> sweep_start took_1s 0 = 0
   \<and> \<not> wait_for_probes health_204 took_1s [probe_a] 25"
  by (simp add: wait_for_probes_def wait_loop.simps sweep_healthy_def probe_healthy_def
      health_204_def took_1s_def)

section \<open>Collection loop\<close>

lemma collect_round_length:
  "collect_round fetch e ps written (length written) = (r, written', c') \<Longrightarrow>
   c' = length written'"
proof (induction ps arbitrary: written)
  case Nil
  then show ?case by auto
next
  case (Cons p ps)
  show ?case
  proof (cases "collect_metrics (fetch p)")
    case None
    then show ?thesis using Cons by simp
  next
    case (Some metrics)
    show ?thesis
    proof (cases "truthy metrics")
      case False
      then show ?thesis using Cons Some by simp
    next
      case True
      let ?w = "written @ [\<lparr> elapsed_sec = e, lr_region = probe_region p,
                          lr_instance_family = probe_instance_family p,
                          lr_instance_id = instance_id p, lr_metrics = metrics \<rparr>]"
      show ?thesis
      proof (cases "print_summary metrics")
        case None
        then have "collect_round fetch e ps ?w (length ?w) = (r, written', c')"
          using Cons.prems Some True by (simp add: Let_def)
        then show ?thesis by (rule Cons.IH)
      next
        case (Some err)
        then show ?thesis using Cons.prems \<open>collect_metrics (fetch p) = Some metrics\<close> True
          by (auto simp add: Let_def)
      qed
    qed
  qed
qed

lemma collect_round_count:
  "collect_round fetch e ps written c = (r, written', c') \<Longrightarrow> c = length written \<Longrightarrow>
   c' = length written'"
  using collect_round_length by blast

lemma round_start_mono:
  "0 \<le> poll \<Longrightarrow> n \<le> k \<Longrightarrow> round_start took poll n \<le> round_start took poll k"
proof (induction k)
  case 0
  then show ?case by simp
next
  case (Suc k)
  show ?case
  proof (cases "n = Suc k")
    case True
    then show ?thesis by simp
  next
    case False
    then have "round_start took poll n \<le> round_start took poll k" using Suc by simp
    moreover have "round_start took poll k \<le> round_start took poll (Suc k)" using Suc.prems(1) by simp
    ultimately show ?thesis by linarith
  qed
qed

lemma collection_loop_normal:
  "collection_loop fuel fetch took config probes elapsed n written c = Some (None, written', c', n') \<Longrightarrow>
   elapsed = round_start took (poll_interval_sec config) n \<Longrightarrow> c = length written \<Longrightarrow>
   c' = length written' \<and> n \<le> n'
   \<and> of_int (measurement_sec config) \<le> round_start took (poll_interval_sec config) n'
   \<and> (\<forall>i. n \<le> i \<and> i < n' \<longrightarrow> round_start took (poll_interval_sec config) i < of_int (measurement_sec config))"
proof (induction fuel arbitrary: elapsed n written c)
  case 0
  then show ?case by simp
next
  case (Suc fuel)
  show ?case
  proof (cases "elapsed < of_int (measurement_sec config)")
    case False
    then show ?thesis using Suc.prems by auto
  next
    case True
    obtain r w1 c1 where cr: "collect_round (fetch n) \<lfloor>elapsed\<rfloor> probes written c = (r, w1, c1)"
      by (cases "collect_round (fetch n) \<lfloor>elapsed\<rfloor> probes written c") auto
    have c1: "c1 = length w1" using cr Suc.prems(3) by (rule collect_round_count)
    have rn: "r = None" using Suc.prems(1) True cr by (cases r) auto
    have pn: "\<not> poll_interval_sec config < 0" using Suc.prems(1) True cr rn by (auto split: if_splits)
    have rec: "collection_loop fuel fetch took config probes
                 (elapsed + of_nat (took n) / 1000 + of_int (poll_interval_sec config)) (Suc n) w1 c1
               = Some (None, written', c', n')"
      using Suc.prems(1) True cr rn pn by simp
    have e': "elapsed + of_nat (took n) / 1000 + of_int (poll_interval_sec config)
        = round_start took (poll_interval_sec config) (Suc n)"
      using Suc.prems(2) by simp
    have ih: "c' = length written' \<and> Suc n \<le> n'
       \<and> of_int (measurement_sec config) \<le> round_start took (poll_interval_sec config) n'
       \<and> (\<forall>i. Suc n \<le> i \<and> i < n' \<longrightarrow> round_start took (poll_interval_sec config) i < of_int (measurement_sec config))"
      using Suc.IH [OF rec e' c1] .
    have here: "round_start took (poll_interval_sec config) n < of_int (measurement_sec config)"
      using True Suc.prems(2) by simp
    have "\<forall>i. n \<le> i \<and> i < n' \<longrightarrow> round_start took (poll_interval_sec config) i < of_int (measurement_sec config)"
    proof (intro allI impI)
      fix i assume i: "n \<le> i \<and> i < n'"
      show "round_start took (poll_interval_sec config) i < of_int (measurement_sec config)"
      proof (cases "i = n")
        case True
        then show ?thesis using here by simp
      next
        case False
        then have "Suc n \<le> i" using i by simp
        then show ?thesis using ih i by blast
      qed
    qed
    then show ?thesis using ih by simp
  qed
qed

lemma collection_loop_returns:
  "poll_interval_sec config \<noteq> 0 \<or> (\<forall>k. 0 < took k) \<Longrightarrow>
   nat \<lceil>(of_int (measurement_sec config) - elapsed) * 1000\<rceil> < fuel \<Longrightarrow>
   collection_loop fuel fetch took config probes elapsed n written c \<noteq> None"
proof (induction fuel arbitrary: elapsed n written c)
  case 0
  then show ?case by simp
next
  case (Suc fuel)
  show ?case
  proof (cases "elapsed < of_int (measurement_sec config)")
    case False
    then show ?thesis by simp
  next
    case True
    obtain r w1 c1 where cr: "collect_round (fetch n) \<lfloor>elapsed\<rfloor> probes written c = (r, w1, c1)"
      by (cases "collect_round (fetch n) \<lfloor>elapsed\<rfloor> probes written c") auto
    show ?thesis
    proof (cases r)
      case (Some e)
      then show ?thesis using True cr by simp
    next
      case None
      show ?thesis
      proof (cases "poll_interval_sec config < 0")
        case neg: True
        then show ?thesis using True cr None by simp
      next
        case nonneg: False
        let ?e' = "elapsed + of_nat (took n) / 1000 + of_int (poll_interval_sec config)"
        let ?M = "of_int (measurement_sec config) :: rat"
        have adv: "(1::rat) \<le> of_nat (took n) + 1000 * of_int (poll_interval_sec config)"
        proof (cases "poll_interval_sec config = 0")
          case True
          then have "0 < took n" using Suc.prems(1) by simp
          then have "(1::rat) \<le> of_nat (took n)" by simp
          then show ?thesis using True by simp
        next
          case False
          then have "1 \<le> poll_interval_sec config" using nonneg by simp
          then have "(1::rat) \<le> of_int (poll_interval_sec config)" by simp
          moreover have "(0::rat) \<le> of_nat (took n)" by simp
          ultimately show ?thesis by linarith
        qed
        have "(?M - ?e') * 1000 = (?M - elapsed) * 1000
            - (of_nat (took n) + 1000 * of_int (poll_interval_sec config))"
          by (simp add: algebra_simps)
        then have "(?M - ?e') * 1000 \<le> (?M - elapsed) * 1000 - 1"
          using adv by linarith
        then have "\<lceil>(?M - ?e') * 1000\<rceil> \<le> \<lceil>(?M - elapsed) * 1000 - 1\<rceil>"
          by (rule ceiling_mono)
        also have "\<dots> = \<lceil>(?M - elapsed) * 1000\<rceil> - 1" by simp
        finally have a: "\<lceil>(?M - ?e') * 1000\<rceil> \<le> \<lceil>(?M - elapsed) * 1000\<rceil> - 1" .
        have "0 < (?M - elapsed) * 1000" using True by simp
        then have b: "0 < \<lceil>(?M - elapsed) * 1000\<rceil>" by simp
        have "nat \<lceil>(?M - ?e') * 1000\<rceil> < fuel"
          using a b Suc.prems(2) by linarith
        then have "collection_loop fuel fetch took config probes ?e' (Suc n) w1 c1 \<noteq> None"
          using Suc.IH [OF Suc.prems(1)] by blast
        then show ?thesis using True cr None nonneg by simp
      qed
    qed
  qed
qed

lemma collection_loop_more_fuel:
  "collection_loop fuel fetch took config probes elapsed n written c = Some r \<Longrightarrow>
   collection_loop (fuel + k) fetch took config probes elapsed n written c = Some r"
proof (induction fuel arbitrary: elapsed n written c)
  case 0
  then show ?case by simp
next
  case (Suc fuel)
  show ?case
  proof (cases "elapsed < of_int (measurement_sec config)")
    case False
    then show ?thesis using Suc.prems by simp
  next
    case True
    obtain e w1 c1 where cr: "collect_round (fetch n) \<lfloor>elapsed\<rfloor> probes written c = (e, w1, c1)"
      by (cases "collect_round (fetch n) \<lfloor>elapsed\<rfloor> probes written c") auto
    show ?thesis
    proof (cases "e = None \<and> \<not> poll_interval_sec config < 0")
      case False
      then show ?thesis using Suc.prems True cr by (cases e) auto
    next
      case t: True
      then have "collection_loop fuel fetch took config probes
                 (elapsed + of_nat (took n) / 1000 + of_int (poll_interval_sec config)) (Suc n) w1 c1 = Some r"
        using Suc.prems True cr by simp
      then have "collection_loop (fuel + k) fetch took config probes
                 (elapsed + of_nat (took n) / 1000 + of_int (poll_interval_sec config)) (Suc n) w1 c1 = Some r"
        by (rule Suc.IH)
      then show ?thesis using True cr t by simp
    qed
  qed
qed

lemma run_collection_unfold:
  "\<not> warmup_sec config < 0 \<Longrightarrow>
   collection_loop fuel fetch took config probes 0 0 [] 0 = Some (e, written, c, n) \<Longrightarrow>
   run_collection fuel fetch took config probes =
     (case e of
        Some err \<Rightarrow> Some (\<lparr> appended = written, rounds = n, total_records = None \<rparr>, Inl err)
      | None \<Rightarrow> Some (\<lparr> appended = written, rounds = n, total_records = Some c \<rparr>,
                     Inr (results_file config)))"
  by (simp add: run_collection_def)

lemma run_collection_more_fuel:
  assumes "run_collection fuel fetch took config probes = Some r"
  shows "run_collection (fuel + k) fetch took config probes = Some r"
proof (cases "warmup_sec config < 0")
  case True
  then show ?thesis using assms by (simp add: run_collection_def)
next
  case False
  show ?thesis
  proof (cases "collection_loop fuel fetch took config probes 0 0 [] 0")
    case None
    then show ?thesis using assms False by (simp add: run_collection_def)
  next
    case (Some l)
    obtain e written c n where l: "l = (e, written, c, n)" by (cases l) auto
    have "collection_loop (fuel + k) fetch took config probes 0 0 [] 0 = Some (e, written, c, n)"
      using Some l collection_loop_more_fuel by blast
    then have "run_collection (fuel + k) fetch took config probes =
        run_collection fuel fetch took config probes"
      using False Some l by (simp add: run_collection_unfold)
    then show ?thesis using assms by simp
  qed
qed

lemma rounds_unique:
  assumes "(M::rat) \<le> rs (n::nat)" "\<forall>i < n. rs i < M" "M \<le> rs n'" "\<forall>i < n'. rs i < M"
  shows "n = n'"
proof (cases n n' rule: linorder_cases)
  case less
  then have "rs n < M" using assms(4) by blast
  then show ?thesis using assms(1) by simp
next
  case equal
  then show ?thesis .
next
  case greater
  then have "rs n' < M" using assms(2) by blast
  then show ?thesis using assms(3) by simp
qed

lemma run_collection_normal:
  assumes "run_collection fuel fetch took config probes = Some (eff, Inr path)"
  shows "path = results_file config
       \<and> total_records eff = Some (length (appended eff))
       \<and> of_int (measurement_sec config) \<le> round_start took (poll_interval_sec config) (rounds eff)
       \<and> (\<forall>i < rounds eff. round_start took (poll_interval_sec config) i < of_int (measurement_sec config))"
proof -
  have w: "\<not> warmup_sec config < 0"
  proof
    assume "warmup_sec config < 0"
    then show False using assms by (simp add: run_collection_def)
  qed
  obtain e written c n where l: "collection_loop fuel fetch took config probes 0 0 [] 0 = Some (e, written, c, n)"
  proof (cases "collection_loop fuel fetch took config probes 0 0 [] 0")
    case None
    then have False using assms w by (simp add: run_collection_def)
    then show ?thesis ..
  next
    case (Some l)
    then show ?thesis using that by (cases l) auto
  qed
  have u: "run_collection fuel fetch took config probes =
     (case e of
        Some err \<Rightarrow> Some (\<lparr> appended = written, rounds = n, total_records = None \<rparr>, Inl err)
      | None \<Rightarrow> Some (\<lparr> appended = written, rounds = n, total_records = Some c \<rparr>,
                     Inr (results_file config)))"
    using w l by (rule run_collection_unfold)
  have en: "e = None" using u assms by (cases e) simp_all
  have ef: "eff = \<lparr> appended = written, rounds = n, total_records = Some c \<rparr>"
    and p: "path = results_file config"
    using u assms en by simp_all
  have l': "collection_loop fuel fetch took config probes 0 0 [] 0 = Some (None, written, c, n)"
    using l en by simp
  have "c = length written
       \<and> of_int (measurement_sec config) \<le> round_start took (poll_interval_sec config) n
       \<and> (\<forall>i < n. round_start took (poll_interval_sec config) i < of_int (measurement_sec config))"
    using collection_loop_normal [OF l'] by simp
  then show ?thesis using ef p by simp
qed

text \<open>
  C9 (amended). Where time advances from round to round (the poll interval is not 0,
  or every round of requests takes time) the collection returns or raises: from some fuel
  on the run has one outcome. When it returns, the value returned is the path
  of the log, and the total it prints is the number of records it appended; the rounds it
  ran are exactly those that began before the end time (the start plus the measurement
  duration), whatever was collected: every run under the same timing that returns, with
  whatever responses, returns the same path after the same number of rounds. The count
  of records is printed, not returned.
\<close>

theorem run_collection_until_end_time:
  assumes "poll_interval_sec config \<noteq> 0 \<or> (\<forall>k. 0 < took k)"
  shows "\<exists>fuel eff ret.
      (\<forall>k. run_collection (fuel + k) fetch took config probes = Some (eff, ret))
      \<and> (\<forall>path. ret = Inr path \<longrightarrow>
            path = results_file config
            \<and> total_records eff = Some (length (appended eff))
            \<and> of_int (measurement_sec config)
                \<le> round_start took (poll_interval_sec config) (rounds eff)
            \<and> (\<forall>i < rounds eff.
                  round_start took (poll_interval_sec config) i < of_int (measurement_sec config))
            \<and> (\<forall>fuel' fetch' eff' path'.
                  run_collection fuel' fetch' took config probes = Some (eff', Inr path')
                  \<longrightarrow> path' = path \<and> rounds eff' = rounds eff))"
proof -
  define fuel where "fuel = Suc (nat \<lceil>(of_int (measurement_sec config) - (0::rat)) * 1000\<rceil>)"
  have "collection_loop fuel fetch took config probes 0 0 [] 0 \<noteq> None"
    using assms by (intro collection_loop_returns) (simp_all add: fuel_def)
  then obtain l where "collection_loop fuel fetch took config probes 0 0 [] 0 = Some l"
    by blast
  then have "run_collection fuel fetch took config probes \<noteq> None"
    by (cases l) (auto simp add: run_collection_def split: option.splits)
  then obtain eff ret where r: "run_collection fuel fetch took config probes = Some (eff, ret)"
    by (cases "run_collection fuel fetch took config probes") auto
  have all: "\<forall>k. run_collection (fuel + k) fetch took config probes = Some (eff, ret)"
    using r run_collection_more_fuel by blast
  have norm: "path = results_file config
            \<and> total_records eff = Some (length (appended eff))
            \<and> of_int (measurement_sec config)
                \<le> round_start took (poll_interval_sec config) (rounds eff)
            \<and> (\<forall>i < rounds eff.
                  round_start took (poll_interval_sec config) i < of_int (measurement_sec config))
            \<and> (\<forall>fuel' fetch' eff' path'.
                  run_collection fuel' fetch' took config probes = Some (eff', Inr path')
                  \<longrightarrow> path' = path \<and> rounds eff' = rounds eff)"
    if ret: "ret = Inr path" for path
  proof -
    have n: "path = results_file config
       \<and> total_records eff = Some (length (appended eff))
       \<and> of_int (measurement_sec config) \<le> round_start took (poll_interval_sec config) (rounds eff)
       \<and> (\<forall>i < rounds eff. round_start took (poll_interval_sec config) i < of_int (measurement_sec config))"
      using r ret run_collection_normal by blast
    have "path' = path \<and> rounds eff' = rounds eff"
      if o: "run_collection fuel' fetch' took config probes = Some (eff', Inr path')"
      for fuel' fetch' eff' path'
    proof -
      have n': "path' = results_file config
       \<and> of_int (measurement_sec config) \<le> round_start took (poll_interval_sec config) (rounds eff')
       \<and> (\<forall>i < rounds eff'. round_start took (poll_interval_sec config) i < of_int (measurement_sec config))"
        using run_collection_normal [OF o] by simp
      have "rounds eff' = rounds eff"
        using n n' rounds_unique [of "of_int (measurement_sec config)"
            "round_start took (poll_interval_sec config)" "rounds eff'" "rounds eff"]
        by blast
      then show ?thesis using n n' by simp
    qed
    then show ?thesis using n by blast
  qed
  show ?thesis using all norm by blast
qed

lemma run_ok:
  "run_collection 2 fetch_ok took_1s sweep_short [probe_a] =
     Some (effects_one_record, Inr ''./results/exp_results.jsonl'')"
  by (simp add: run_collection_def eval_nat_numeral sweep_short_def fetch_ok_def took_1s_def
      probe_a_def collect_metrics_def payload_ok_def print_summary_def results_file_def
      effects_one_record_def Let_def)

lemma run_down:
  "run_collection 2 fetch_down took_1s sweep_short [probe_a] =
     Some (effects_no_record, Inr ''./results/exp_results.jsonl'')"
  by (simp add: run_collection_def eval_nat_numeral sweep_short_def fetch_down_def took_1s_def
      probe_a_def collect_metrics_def results_file_def effects_no_record_def)

theorem run_collection_until_end_time_witness:
  "poll_interval_sec sweep_short = 60
   \<and> run_collection 2 fetch_ok took_1s sweep_short [probe_a] =
       Some (effects_one_record, Inr ''./results/exp_results.jsonl'')
   \<and> results_file sweep_short = ''./results/exp_results.jsonl''
   \<and> rounds effects_one_record = 1
   \<and> round_start took_1s (poll_interval_sec sweep_short) 0 = 0
   \<and> round_start took_1s (poll_interval_sec sweep_short) 1 = 61
   \<and> measurement_sec sweep_short = 60"
proof -
  have h0: "poll_interval_sec sweep_short = 60" by (simp add: sweep_short_def)
  then have h: "poll_interval_sec sweep_short \<noteq> 0 \<or> (\<forall>k. 0 < took_1s k)" by simp
  obtain fuel eff ret where
    a: "\<forall>k. run_collection (fuel + k) fetch_ok took_1s sweep_short [probe_a] = Some (eff, ret)"
    and b: "\<forall>path. ret = Inr path \<longrightarrow> path = results_file sweep_short"
    using run_collection_until_end_time [OF h, of fetch_ok "[probe_a]"] by blast
  have x: "run_collection (2 + fuel) fetch_ok took_1s sweep_short [probe_a] =
      Some (effects_one_record, Inr ''./results/exp_results.jsonl'')"
    using run_ok by (rule run_collection_more_fuel)
  have y: "run_collection (fuel + 2) fetch_ok took_1s sweep_short [probe_a] = Some (eff, ret)"
    using a by (rule spec)
  have "fuel + 2 = 2 + fuel" by simp
  then have "Some (eff, ret) = Some (effects_one_record, Inr ''./results/exp_results.jsonl'')"
    using x y by simp
  then have "ret = Inr ''./results/exp_results.jsonl''"
    by simp
  then have p: "results_file sweep_short = ''./results/exp_results.jsonl''"
    using b by simp
  have c: "rounds effects_one_record = 1
      \<and> round_start took_1s (poll_interval_sec sweep_short) 0 = 0
      \<and> round_start took_1s (poll_interval_sec sweep_short) 1 = 61
      \<and> measurement_sec sweep_short = 60"
    by (simp add: effects_one_record_def sweep_short_def took_1s_def)
  show ?thesis using h0 run_ok p c by blast
qed

text \<open>
  C9 as stated fails: a run that writes one record and a run that writes none return
  the same value, the path; the count is not part of it.
\<close>

theorem run_collection_counterexample:
  "run_collection 2 fetch_ok took_1s sweep_short [probe_a] =
     Some (effects_one_record, Inr ''./results/exp_results.jsonl'')
   \<and> run_collection 2 fetch_down took_1s sweep_short [probe_a] =
     Some (effects_no_record, Inr ''./results/exp_results.jsonl'')
   \<and> total_records effects_one_record = Some 1
   \<and> total_records effects_no_record = Some 0"
  using run_ok run_down by (simp add: effects_one_record_def effects_no_record_def)

end
